theory Spec2Isabelle
  imports Main "HOL-Library.Char_ord"
begin

section \<open>Strings and character classes\<close>

text \<open>
  Go strings are byte sequences; they are modelled as \<open>string\<close> (a list of 8-bit
  \<open>char\<close>). Every pattern of the program is built from ASCII literals and the ASCII
  classes \<open>\w\<close>, \<open>\d\<close>, \<open>\s\<close>, \<open>[a-z]\<close>, ... only (no \<open>.\<close>, no negated class), so a
  byte of a multi-byte rune never matches any of them and matching byte by byte agrees
  with Go's matching rune by rune.
\<close>

definition lower :: "char \<Rightarrow> bool" where
  \<comment> \<open>\<open>[a-z]\<close>\<close>
  "lower c \<longleftrightarrow> CHR ''a'' \<le> c \<and> c \<le> CHR ''z''"

definition upper :: "char \<Rightarrow> bool" where
  \<comment> \<open>\<open>[A-Z]\<close>\<close>
  "upper c \<longleftrightarrow> CHR ''A'' \<le> c \<and> c \<le> CHR ''Z''"

definition digit :: "char \<Rightarrow> bool" where
  \<comment> \<open>\<open>\d\<close>, which in Go's regexp is \<open>[0-9]\<close>\<close>
  "digit c \<longleftrightarrow> CHR ''0'' \<le> c \<and> c \<le> CHR ''9''"

definition alnum :: "char \<Rightarrow> bool" where
  \<comment> \<open>\<open>[A-Za-z0-9]\<close>\<close>
  "alnum c \<longleftrightarrow> upper c \<or> lower c \<or> digit c"

definition word :: "char \<Rightarrow> bool" where
  \<comment> \<open>\<open>\w\<close>, which in Go's regexp is \<open>[0-9A-Za-z_]\<close>\<close>
  "word c \<longleftrightarrow> alnum c \<or> c = CHR ''_''"

definition space :: "char \<Rightarrow> bool" where
  \<comment> \<open>\<open>\s\<close>, which in Go's regexp is \<open>[\t\n\f\r ]\<close>\<close>
  "space c \<longleftrightarrow> c = CHR 0x09 \<or> c = CHR 0x0A \<or> c = CHR 0x0C \<or> c = CHR 0x0D \<or> c = CHR '' ''"

definition literal :: "string \<Rightarrow> string \<Rightarrow> string option" where
  \<comment> \<open>a literal piece of a pattern, matched at the first character: the rest of the text\<close>
  "literal p s = (if take (length p) s = p then Some (drop (length p) s) else None)"

fun MatchString :: "(string \<Rightarrow> bool) \<Rightarrow> string \<Rightarrow> bool" where
  \<comment> \<open>\<open>MatchString\<close> of a pattern with no \<open>^\<close>: some position of the text starts a match;
      the argument decides a match that starts at the first character of what is left\<close>
  "MatchString at [] = at []"
| "MatchString at (c # cs) = (at (c # cs) \<or> MatchString at cs)"

fun FindStringSubmatch ::
  "(string \<Rightarrow> (string \<times> string list) option) \<Rightarrow> string \<Rightarrow> string list" where
  \<comment> \<open>\<open>FindStringSubmatch\<close> of a pattern with no \<open>^\<close>: the leftmost match, as the list of the
      matched text and the capture groups, or the empty list (Go's \<open>nil\<close>) when no position
      starts a match; the argument gives the match that starts at the first character of
      what is left, as the matched text and the groups\<close>
  "FindStringSubmatch at [] = (case at [] of Some (m, groups) \<Rightarrow> m # groups | None \<Rightarrow> [])"
| "FindStringSubmatch at (c # cs) =
     (case at (c # cs) of Some (m, groups) \<Rightarrow> m # groups | None \<Rightarrow> FindStringSubmatch at cs)"

section \<open>Identifier classifier (package awsclient)\<close>

definition region_at :: "string \<Rightarrow> (string \<times> string) option" where
  \<comment> \<open>\<open>[a-z]{2}-[a-z]+-\d{1,3}\<close> at the first character: the region and the rest.
      \<open>[a-z]+\<close> can only end where a \<open>-\<close> follows, so it takes the whole run of letters;
      \<open>\d{1,3}\<close> is greedy and takes up to three digits.\<close>
  "region_at s =
     (case s of
        a # b # r \<Rightarrow>
          if lower a \<and> lower b then
            (case literal ''-'' r of
               None \<Rightarrow> None
             | Some r1 \<Rightarrow>
                 let w = takeWhile lower r1 in
                 if w = [] then None
                 else
                   (case literal ''-'' (dropWhile lower r1) of
                      None \<Rightarrow> None
                    | Some r2 \<Rightarrow>
                        let d = takeWhile digit (take 3 r2) in
                        if d = [] then None
                        else Some ([a, b] @ ''-'' @ w @ ''-'' @ d, drop (length d) r2)))
          else None
      | _ \<Rightarrow> None)"

definition arn_name_char :: "char \<Rightarrow> bool" where
  \<comment> \<open>\<open>[\w/_+=.@-]\<close>\<close>
  "arn_name_char c \<longleftrightarrow> word c \<or> c \<in> set ''/_+=.@-''"

definition name_char :: "char \<Rightarrow> bool" where
  \<comment> \<open>\<open>[\w/+=.@-]\<close>\<close>
  "name_char c \<longleftrightarrow> word c \<or> c \<in> set ''/+=.@-''"

definition arnRegex :: "string \<Rightarrow> bool" where
  \<comment> \<open>\<open>^(arn:aws:secretsmanager:[a-z]{2}-[a-z]+-\d{1,3}:\d{12}:secret:[\w/_+=.@-]+)$\<close>.
      After the region a \<open>:\<close> must follow, so giving back digits of \<open>\d{1,3}\<close> never
      helps; \<open>\d{12}\<close> is the next twelve characters.\<close>
  "arnRegex s =
     (case literal ''arn:aws:secretsmanager:'' s of
        None \<Rightarrow> False
      | Some r1 \<Rightarrow>
          (case region_at r1 of
             None \<Rightarrow> False
           | Some (reg, r2) \<Rightarrow>
               (case literal '':'' r2 of
                  None \<Rightarrow> False
                | Some r3 \<Rightarrow>
                    length (take 12 r3) = 12 \<and> list_all digit (take 12 r3) \<and>
                    (case literal '':secret:'' (drop 12 r3) of
                       None \<Rightarrow> False
                     | Some r4 \<Rightarrow> r4 \<noteq> [] \<and> list_all arn_name_char r4))))"

definition nameRegex :: "string \<Rightarrow> bool" where
  \<comment> \<open>\<open>^([\w/+=.@-]{1,512})$\<close>\<close>
  "nameRegex s \<longleftrightarrow> 1 \<le> length s \<and> length s \<le> 512 \<and> list_all name_char s"

definition nameRestriction_at :: "string \<Rightarrow> bool" where
  \<comment> \<open>\<open>-[A-Za-z0-9]{6}$\<close> at the first character of what is left of the text; Go's \<open>$\<close>
      (no \<open>m\<close> flag) is the end of the text\<close>
  "nameRestriction_at s =
     (case s of [] \<Rightarrow> False | c # r \<Rightarrow> c = CHR ''-'' \<and> length r = 6 \<and> list_all alnum r)"

definition nameRestrictionRegex :: "string \<Rightarrow> bool" where
  "nameRestrictionRegex s = MatchString nameRestriction_at s"

definition regionRegex_at :: "string \<Rightarrow> (string \<times> string list) option" where
  \<comment> \<open>\<open>(?:secretsmanager:)([a-z]{2}-[a-z]+-\d{1,3})\<close> at the first character\<close>
  "regionRegex_at s =
     (case literal ''secretsmanager:'' s of
        None \<Rightarrow> None
      | Some r \<Rightarrow>
          (case region_at r of
             None \<Rightarrow> None
           | Some (reg, rest) \<Rightarrow> Some (''secretsmanager:'' @ reg, [reg])))"

definition isValidSecretIdentifier :: "string \<Rightarrow> bool" where
  "isValidSecretIdentifier identifier =
     (if identifier = [] then False
      else arnRegex identifier \<or> (nameRegex identifier \<and> \<not> nameRestrictionRegex identifier))"

section \<open>Errors, panics and the provider (AWS SDK) boundary\<close>

text \<open>
  A Go \<open>error\<close> is a value; \<open>nil\<close> is \<open>None\<close> of \<open>error option\<close>. Each \<open>fmt.Errorf\<close> of the
  source is a constructor that keeps the arguments of the message (and the wrapped
  error of \<open>%w\<close>); an error handed over by a collaborator (the AWS SDK, the operating
  system, encoding/json) is \<open>External\<close>.
\<close>

datatype error =
    External string
  | InvalidIdentifier string           \<comment> \<open>GetSecret: identifier is not valid\<close>
  | SessionError string error          \<comment> \<open>getSession: no session for the region\<close>
  | CredentialsError string error      \<comment> \<open>getSession: the profile has no valid credentials\<close>
  | ServiceError error                 \<comment> \<open>getService: no client for the secrets manager\<close>
  | SecretServiceError error           \<comment> \<open>GetSecret: the secret could not be obtained\<close>
  | SecretNotText string               \<comment> \<open>GetSecret: the secret does not contain a text\<close>
  | SecretFetchError string error      \<comment> \<open>GetSecret: the value of the secret could not be obtained\<close>
  | InputNotFound string               \<comment> \<open>processTemplateFile: input file not found\<close>
  | OpenError string error             \<comment> \<open>processTemplateFile: opening the input failed\<close>
  | CreateError string error           \<comment> \<open>processTemplateFile: creating the output failed\<close>
  | ItemsNotReplaced int               \<comment> \<open>processTemplateFile: n items could not be replaced\<close>
  | WriteError error                   \<comment> \<open>processTemplateFile: writing the output failed\<close>
  | ReadError error                    \<comment> \<open>processTemplateFile: reading the input failed\<close>

text \<open>
  A run-time panic (a nil pointer dereference, an index out of range) is not an error
  value: nothing in the program recovers from it, so it ends the run.
\<close>

datatype 'a result = Panic string | Return 'a

text \<open>
  The SDK's objects. A \<open>*session.Session\<close> and a \<open>*secretsmanager.SecretsManager\<close> are
  pointers: \<open>None\<close> is \<open>nil\<close>. \<open>secretsmanager.New\<close> wraps a session without any call to
  the network. Of \<open>session.Options\<close> and \<open>GetSecretValueOutput\<close> only the fields the program
  sets or reads are kept.
\<close>

datatype session = Session nat

datatype service = SecretsManager session

record Options =
  Profile :: string
  Region :: "string option"
  SharedConfigEnable :: bool

record GetSecretValueOutput =
  SecretString :: "string option"

datatype event =
    NewSessionCall Options
  | CredentialsGetCall session
  | NewServiceCall session
  | GetSecretValueCall service string

text \<open>
  The provider is a parameter. Its answers may change from one call to the next: each
  capability reads the history of the calls made to the provider so far in the run.
\<close>

record provider =
  NewSessionWithOptions :: "event list \<Rightarrow> Options \<Rightarrow> session option \<times> error option"
  Credentials_Get :: "event list \<Rightarrow> session \<Rightarrow> error option"
  GetSecretValue :: "event list \<Rightarrow> service \<Rightarrow> string \<Rightarrow> GetSecretValueOutput option \<times> error option"

section \<open>Resolution cache and secret resolver (package awsclient)\<close>

record 'a CacheItem =
  item :: 'a
  err :: "error option"

record AWSClient =
  sessions :: "string \<rightharpoonup> session option CacheItem"
  services :: "string \<rightharpoonup> service option CacheItem"
  secrets :: "string \<rightharpoonup> string CacheItem"
  profile :: string
  defaultRegion :: string

text \<open>
  The three mutexes are left out: the program calls the client from one goroutine, and
  each method locks a mutex of its own that no method it calls locks again.
\<close>

definition NewAWSClient :: "string \<Rightarrow> string \<Rightarrow> AWSClient" where
  "NewAWSClient prof reg =
     \<lparr>sessions = Map.empty, services = Map.empty, secrets = Map.empty,
      profile = prof, defaultRegion = reg\<rparr>"

definition getSession ::
  "provider \<Rightarrow> string \<Rightarrow> AWSClient \<Rightarrow> event list \<Rightarrow>
     ((session option \<times> error option) \<times> AWSClient \<times> event list) result" where
  "getSession sdk region client h =
     (case sessions client region of
        Some cacheItem \<Rightarrow> Return ((item cacheItem, err cacheItem), client, h)
      | None \<Rightarrow>
          let sessionOptions =
                (if region = []
                 then \<lparr>Profile = profile client, Region = None, SharedConfigEnable = True\<rparr>
                 else \<lparr>Profile = profile client, Region = Some region, SharedConfigEnable = False\<rparr>);
              (it, e) = NewSessionWithOptions sdk h sessionOptions;
              h1 = h @ [NewSessionCall sessionOptions];
              cacheItem = \<lparr>item = it, err = e\<rparr>;
              cacheItem1 =
                (case err cacheItem of
                   None \<Rightarrow> cacheItem
                 | Some e0 \<Rightarrow> cacheItem\<lparr>err := Some (SessionError region e0)\<rparr>)
          in
            \<comment> \<open>\<open>item.Config.Credentials.Get()\<close> reads through \<open>item\<close> whatever \<open>err\<close> was\<close>
            (case it of
               None \<Rightarrow> Panic ''invalid memory address or nil pointer dereference''
             | Some s \<Rightarrow>
                 let ce = Credentials_Get sdk h1 s;
                     h2 = h1 @ [CredentialsGetCall s];
                     cacheItem2 =
                       (case ce of
                          None \<Rightarrow> cacheItem1
                        | Some e1 \<Rightarrow> cacheItem1\<lparr>err := Some (CredentialsError (profile client) e1)\<rparr>)
                 in Return ((item cacheItem2, err cacheItem2),
                            client\<lparr>sessions := (sessions client)(region \<mapsto> cacheItem2)\<rparr>, h2)))"

definition getService ::
  "provider \<Rightarrow> string \<Rightarrow> AWSClient \<Rightarrow> event list \<Rightarrow>
     ((service option \<times> error option) \<times> AWSClient \<times> event list) result" where
  "getService sdk region client h =
     (case services client region of
        Some cacheItem \<Rightarrow> Return ((item cacheItem, err cacheItem), client, h)
      | None \<Rightarrow>
          (case getSession sdk region client h of
             Panic p \<Rightarrow> Panic p
           | Return ((sess, e), client1, h1) \<Rightarrow>
               (case e of
                  Some e0 \<Rightarrow>
                    let cacheItem = \<lparr>item = None, err = Some (ServiceError e0)\<rparr>
                    in Return ((item cacheItem, err cacheItem),
                               client1\<lparr>services := (services client1)(region \<mapsto> cacheItem)\<rparr>, h1)
                | None \<Rightarrow>
                    \<comment> \<open>\<open>secretsmanager.New\<close> reads the configuration through the session\<close>
                    (case sess of
                       None \<Rightarrow> Panic ''invalid memory address or nil pointer dereference''
                     | Some s \<Rightarrow>
                         let cacheItem = \<lparr>item = Some (SecretsManager s), err = None\<rparr>
                         in Return ((item cacheItem, err cacheItem),
                                    client1\<lparr>services := (services client1)(region \<mapsto> cacheItem)\<rparr>,
                                    h1 @ [NewServiceCall s])))))"

definition getRegionFromIdentifier :: "AWSClient \<Rightarrow> string \<Rightarrow> string" where
  "getRegionFromIdentifier client identifier =
     (let matches = FindStringSubmatch regionRegex_at identifier
      in if length matches > 1 then matches ! 1 else defaultRegion client)"

definition GetSecret ::
  "provider \<Rightarrow> string \<Rightarrow> AWSClient \<Rightarrow> event list \<Rightarrow>
     ((string \<times> error option) \<times> AWSClient \<times> event list) result" where
  "GetSecret sdk identifier client h =
     (if \<not> isValidSecretIdentifier identifier
      then Return (([], Some (InvalidIdentifier identifier)), client, h)
      else
        (case secrets client identifier of
           Some cacheItem \<Rightarrow> Return ((item cacheItem, err cacheItem), client, h)
         | None \<Rightarrow>
             let secretRegion = getRegionFromIdentifier client identifier in
             (case getService sdk secretRegion client h of
                Panic p \<Rightarrow> Panic p
              | Return ((svc, e), client1, h1) \<Rightarrow>
                  (case e of
                     Some e0 \<Rightarrow>
                       let cacheItem = \<lparr>item = [], err = Some (SecretServiceError e0)\<rparr>
                       in Return ((item cacheItem, err cacheItem),
                                  client1\<lparr>secrets := (secrets client1)(identifier \<mapsto> cacheItem)\<rparr>, h1)
                   | None \<Rightarrow>
                       \<comment> \<open>the call goes through \<open>service\<close>, and \<open>result.SecretString\<close> through \<open>result\<close>\<close>
                       (case svc of
                          None \<Rightarrow> Panic ''invalid memory address or nil pointer dereference''
                        | Some sv \<Rightarrow>
                            let (res, e1) = GetSecretValue sdk h1 sv identifier;
                                h2 = h1 @ [GetSecretValueCall sv identifier]
                            in
                              (case res of
                                 None \<Rightarrow> Panic ''invalid memory address or nil pointer dereference''
                               | Some out \<Rightarrow>
                                   let cacheItem =
                                         (case SecretString out of
                                            Some s \<Rightarrow> \<lparr>item = s, err = None\<rparr>
                                          | None \<Rightarrow>
                                              (case e1 of
                                                 None \<Rightarrow> \<lparr>item = [], err = Some (SecretNotText identifier)\<rparr>
                                               | Some e2 \<Rightarrow>
                                                   \<lparr>item = [], err = Some (SecretFetchError identifier e2)\<rparr>))
                                   in Return ((item cacheItem, err cacheItem),
                                              client1\<lparr>secrets := (secrets client1)(identifier \<mapsto> cacheItem)\<rparr>,
                                              h2)))))))"

text \<open>
  A run calls \<open>GetSecret\<close> again and again on the same client: the calls for a list of
  identifiers, one after the other, each on the state the one before left.
\<close>

fun GetSecret_calls ::
  "provider \<Rightarrow> string list \<Rightarrow> AWSClient \<Rightarrow> event list \<Rightarrow> (AWSClient \<times> event list) result" where
  "GetSecret_calls sdk [] client h = Return (client, h)"
| "GetSecret_calls sdk (j # js) client h =
     (case GetSecret sdk j client h of
        Panic p \<Rightarrow> Panic p
      | Return (r, client1, h1) \<Rightarrow> GetSecret_calls sdk js client1 h1)"

section \<open>Patterns of the substitution engine (package main)\<close>

text \<open>
  A pattern that is searched for is given by its match at the first character of a
  text: the matched text and the capture groups, by Go's leftmost-first rule (a greedy
  \<open>?\<close>, \<open>*\<close> or \<open>+\<close> takes as much as it can and gives back only when the rest of the pattern
  fails). None of the searched patterns has \<open>^\<close>, \<open>$\<close> or \<open>\b\<close>, so a match at a position
  depends on the text from that position on only.
\<close>

definition commentRegex :: "string \<Rightarrow> bool" where
  \<comment> \<open>\<open>^\s*[#\/*]\<close>: no character of the class is a space, so \<open>\s*\<close> takes the whole run\<close>
  "commentRegex line = (case dropWhile space line of [] \<Rightarrow> False | c # r \<Rightarrow> c \<in> set ''#/*'')"

definition env_name_start :: "char \<Rightarrow> bool" where
  \<comment> \<open>\<open>[A-Za-z_{]\<close>\<close>
  "env_name_start c \<longleftrightarrow> upper c \<or> lower c \<or> c = CHR ''_'' \<or> c = CHR ''{''"

definition env_name_char :: "char \<Rightarrow> bool" where
  \<comment> \<open>\<open>[A-Za-z0-9_]\<close>\<close>
  "env_name_char c \<longleftrightarrow> upper c \<or> lower c \<or> digit c \<or> c = CHR ''_''"

definition envVar_name :: "string \<Rightarrow> (string \<times> string) option" where
  \<comment> \<open>\<open>([A-Za-z_{][A-Za-z0-9_]*)}?\<close> at the first character: the group and the text matched\<close>
  "envVar_name s =
     (case s of
        [] \<Rightarrow> None
      | c # r \<Rightarrow>
          if env_name_start c then
            let name = c # takeWhile env_name_char r in
            (case dropWhile env_name_char r of
               [] \<Rightarrow> Some (name, name)
             | d # r1 \<Rightarrow> if d = CHR ''}'' then Some (name, name @ ''}'') else Some (name, name))
          else None)"

definition envVar_dollar :: "string \<Rightarrow> (string \<times> string) option" where
  \<comment> \<open>\<open>\${?([A-Za-z_{][A-Za-z0-9_]*)}?\<close> at the first character: \<open>{?\<close> first takes the
      brace; when nothing matches after it, the brace is the first character of the group\<close>
  "envVar_dollar s =
     (case s of
        [] \<Rightarrow> None
      | c # r \<Rightarrow>
          if c = CHR ''$'' then
            (case (case r of
                     [] \<Rightarrow> None
                   | b # r1 \<Rightarrow> if b = CHR ''{'' then envVar_name r1 else None) of
               Some (name, t) \<Rightarrow> Some (name, ''${'' @ t)
             | None \<Rightarrow>
                 (case envVar_name r of
                    Some (name, t) \<Rightarrow> Some (name, ''$'' @ t)
                  | None \<Rightarrow> None))
          else None)"

definition envVarRegex_at :: "string \<Rightarrow> (string \<times> string list) option" where
  \<comment> \<open>\<open>{?\${?([A-Za-z_{][A-Za-z0-9_]*)}?\<close> at the first character\<close>
  "envVarRegex_at s =
     (case (case s of
              [] \<Rightarrow> None
            | b # r \<Rightarrow> if b = CHR ''{'' then envVar_dollar r else None) of
        Some (name, t) \<Rightarrow> Some (''{'' @ t, [name])
      | None \<Rightarrow>
          (case envVar_dollar s of
             Some (name, t) \<Rightarrow> Some (t, [name])
           | None \<Rightarrow> None))"

definition placeholder_char :: "char \<Rightarrow> bool" where
  \<comment> \<open>\<open>[\w/:+_=.@-]\<close>\<close>
  "placeholder_char c \<longleftrightarrow> word c \<or> c \<in> set ''/:+_=.@-''"

definition placeholder_close :: "string \<Rightarrow> string option" where
  \<comment> \<open>\<open>\}?\}\<close> at the first character: two braces when there are two, else one\<close>
  "placeholder_close s =
     (case s of
        [] \<Rightarrow> None
      | a # r \<Rightarrow>
          if a = CHR ''}'' then
            (case r of
               [] \<Rightarrow> Some ''}''
             | b # r1 \<Rightarrow> if b = CHR ''}'' then Some ''}}'' else Some ''}'')
          else None)"

definition placeholder_subkey :: "string \<Rightarrow> (string \<times> string) option" where
  \<comment> \<open>\<open>\[([\w]+)\]\}?\}\<close> at the first character: the key and the text matched\<close>
  "placeholder_subkey s =
     (case s of
        [] \<Rightarrow> None
      | a # r \<Rightarrow>
          if a = CHR ''['' then
            let k = takeWhile word r in
            if k = [] then None
            else
              (case dropWhile word r of
                 [] \<Rightarrow> None
               | b # r1 \<Rightarrow>
                   if b = CHR '']'' then
                     (case placeholder_close r1 of
                        None \<Rightarrow> None
                      | Some cl \<Rightarrow> Some (k, ''['' @ k @ '']'' @ cl))
                   else None)
          else None)"

definition placeholder_body :: "string \<Rightarrow> (string \<times> string list) option" where
  \<comment> \<open>\<open>([\w/:+_=.@-]+)(\[([\w]+)\])?\}?\}\<close> at the first character. What follows the first
      group is \<open>[\<close> or \<open>}\<close>, neither of its class, so the group is the whole run. The
      optional group is tried first; an optional group that did not take part is empty.\<close>
  "placeholder_body s =
     (let ident = takeWhile placeholder_char s; r = dropWhile placeholder_char s in
      if ident = [] then None
      else
        (case placeholder_subkey r of
           Some (k, t) \<Rightarrow> Some (ident @ t, [ident, ''['' @ k @ '']'', k])
         | None \<Rightarrow>
             (case placeholder_close r of
                Some cl \<Rightarrow> Some (ident @ cl, [ident, [], []])
              | None \<Rightarrow> None)))"

definition placeholderRegex_at :: "string \<Rightarrow> (string \<times> string list) option" where
  \<comment> \<open>\<open>\{\{?([\w/:+_=.@-]+)(\[([\w]+)\])?\}?\}\<close> at the first character\<close>
  "placeholderRegex_at s =
     (case s of
        [] \<Rightarrow> None
      | a # r \<Rightarrow>
          if a = CHR ''{'' then
            (case (case r of
                     [] \<Rightarrow> None
                   | b # r1 \<Rightarrow> if b = CHR ''{'' then placeholder_body r1 else None) of
               Some (t, groups) \<Rightarrow> Some (''{{'' @ t, groups)
             | None \<Rightarrow>
                 (case placeholder_body r of
                    Some (t, groups) \<Rightarrow> Some (''{'' @ t, groups)
                  | None \<Rightarrow> None))
          else None)"

function ReplaceAllStringFunc ::
  "(string \<Rightarrow> (string \<times> string list) option) \<Rightarrow> (string \<Rightarrow> 's \<Rightarrow> (string \<times> 's) result) \<Rightarrow>
     string \<Rightarrow> 's \<Rightarrow> (string \<times> 's) result" where
  \<comment> \<open>The text between the matches is copied; each match, from left to right, is
      replaced by what the callback returns for the matched text, and the search goes on
      behind the match. The callback may change the state it closes over and may panic.
      No pattern of the program matches the empty text, so what Go does with an empty
      match is left out: an empty match is passed over like no match.\<close>
  "ReplaceAllStringFunc at repl src st =
     (case src of
        [] \<Rightarrow> Return ([], st)
      | c # cs \<Rightarrow>
          (case at src of
             None \<Rightarrow>
               (case ReplaceAllStringFunc at repl cs st of
                  Panic p \<Rightarrow> Panic p
                | Return (out, st1) \<Rightarrow> Return (c # out, st1))
           | Some (m, groups) \<Rightarrow>
               if m = [] then
                 (case ReplaceAllStringFunc at repl cs st of
                    Panic p \<Rightarrow> Panic p
                  | Return (out, st1) \<Rightarrow> Return (c # out, st1))
               else
                 (case repl m st of
                    Panic p \<Rightarrow> Panic p
                  | Return (r, st1) \<Rightarrow>
                      (case ReplaceAllStringFunc at repl (drop (length m) src) st1 of
                         Panic p \<Rightarrow> Panic p
                       | Return (out, st2) \<Rightarrow> Return (r @ out, st2)))))"
  by pat_completeness auto
termination
  by (relation "measure (\<lambda>(at, repl, src, st). length src)") auto

declare ReplaceAllStringFunc.simps [simp del]

section \<open>Substitution engine (package main)\<close>

text \<open>
  The collaborators of the engine besides the provider: the environment of the process
  (\<open>os.Getenv\<close> gives the empty string for a variable that is not set; the program never
  changes the environment) and \<open>json.Unmarshal\<close> into a \<open>map[string]string\<close>.
\<close>

record host =
  Getenv :: "string \<Rightarrow> string"
  Unmarshal :: "string \<Rightarrow> error + (string \<rightharpoonup> string)"

datatype log_entry =
    LogError error             \<comment> \<open>\<open>log.Println(err)\<close>\<close>
  | LogKeyNotFound string      \<comment> \<open>\<open>log.Printf\<close>: key not found\<close>
  | LogJSONError error         \<comment> \<open>\<open>log.Println\<close>: JSON parse error\<close>

text \<open>
  \<open>bufio.Writer\<close> over the output file: the bytes that reached the file, the bytes still
  in the buffer (4096 bytes, the default size) and the writer's sticky error.
\<close>

record Writer =
  wfile :: string
  wbuf :: string
  werr :: "error option"

text \<open>
  The file system as the run meets it: whether the input exists, whether opening and
  creating fail, the lines \<open>bufio.Scanner\<close> delivers (without the end-of-line marker) and
  the error it ends with, and the error with which a write to the output file fails (it
  then writes nothing).
\<close>

record files =
  input_exists :: bool
  open_error :: "error option"
  create_error :: "error option"
  input_lines :: "string list"
  scan_error :: "error option"
  write_error :: "error option"

definition Available :: "Writer \<Rightarrow> nat" where
  "Available w = 4096 - length (wbuf w)"

definition file_Write :: "files \<Rightarrow> string \<Rightarrow> Writer \<Rightarrow> Writer" where
  \<comment> \<open>a write to the output file itself\<close>
  "file_Write fs p w =
     (case write_error fs of
        None \<Rightarrow> w\<lparr>wfile := wfile w @ p\<rparr>
      | Some e \<Rightarrow> w\<lparr>werr := Some e\<rparr>)"

definition Flush :: "files \<Rightarrow> Writer \<Rightarrow> Writer" where
  \<comment> \<open>\<open>writer.Flush()\<close>; what it returns is \<open>werr\<close> of the result\<close>
  "Flush fs w =
     (if werr w \<noteq> None then w
      else if wbuf w = [] then w
      else
        (case write_error fs of
           None \<Rightarrow> w\<lparr>wfile := wfile w @ wbuf w, wbuf := []\<rparr>
         | Some e \<Rightarrow> w\<lparr>werr := Some e\<rparr>))"

definition bufio_Write :: "files \<Rightarrow> string \<Rightarrow> Writer \<Rightarrow> Writer" where
  \<comment> \<open>\<open>(*bufio.Writer).Write\<close>: data that fits is buffered; otherwise the buffer is filled
      and flushed, and what is left is buffered, or written through when it is larger
      than the buffer. Its loop runs twice at most, and is written out here.\<close>
  "bufio_Write fs p w =
     (if werr w \<noteq> None then w
      else if length p \<le> Available w then w\<lparr>wbuf := wbuf w @ p\<rparr>
      else
        let (w1, p1) =
              (if wbuf w = [] then (w, p)
               else (Flush fs (w\<lparr>wbuf := wbuf w @ take (Available w) p\<rparr>),
                     drop (Available w) p))
        in
          if werr w1 \<noteq> None then w1
          else if length p1 \<le> Available w1 then w1\<lparr>wbuf := wbuf w1 @ p1\<rparr>
          else file_Write fs p1 w1)"

definition Fprintln :: "files \<Rightarrow> string \<Rightarrow> Writer \<Rightarrow> Writer" where
  \<comment> \<open>\<open>fmt.Fprintln(writer, line)\<close>: one write of the line and a newline; the program
      ignores what it returns\<close>
  "Fprintln fs line w = bufio_Write fs (line @ [CHR 0x0A]) w"

text \<open>
  What the loop of \<open>processTemplateFile\<close> changes: the client, the history of provider
  calls, the counter \<open>failed\<close> (a Go \<open>int\<close>; a run cannot count up to its bound), the log and
  the writer.
\<close>

record run =
  aws_client :: AWSClient
  history :: "event list"
  failed :: int
  logged :: "log_entry list"
  writer :: Writer

definition envVarCallback :: "host \<Rightarrow> string \<Rightarrow> unit \<Rightarrow> (string \<times> unit) result" where
  \<comment> \<open>the function literal of the environment pass\<close>
  "envVarCallback os placeholder u =
     (let matches = FindStringSubmatch envVarRegex_at placeholder in
      if length matches \<le> 1 then Panic ''index out of range''
      else
        let envVarValue = Getenv os (matches ! 1) in
        if envVarValue \<noteq> [] then Return (envVarValue, u)
        else Return (matches ! 0, u))"

definition placeholderCallback ::
  "provider \<Rightarrow> host \<Rightarrow> string \<Rightarrow> run \<Rightarrow> (string \<times> run) result" where
  \<comment> \<open>the function literal of the secret pass\<close>
  "placeholderCallback sdk os placeholder st =
     (let matches = FindStringSubmatch placeholderRegex_at placeholder in
      if length matches \<le> 3 then Panic ''index out of range''
      else
        (case GetSecret sdk (matches ! 1) (aws_client st) (history st) of
           Panic p \<Rightarrow> Panic p
         | Return ((secretValue, e), client1, h1) \<Rightarrow>
             let st1 = st\<lparr>aws_client := client1, history := h1\<rparr> in
             (case e of
                Some e0 \<Rightarrow>
                  Return (matches ! 0,
                          st1\<lparr>failed := failed st1 + 1, logged := logged st1 @ [LogError e0]\<rparr>)
              | None \<Rightarrow>
                  if secretValue \<noteq> [] then
                    if matches ! 3 = [] then Return (secretValue, st1)
                    else
                      (case Unmarshal os secretValue of
                         Inr secretMap \<Rightarrow>
                           (case secretMap (matches ! 3) of
                              Some v \<Rightarrow> Return (v, st1)
                            | None \<Rightarrow>
                                Return (matches ! 0,
                                        st1\<lparr>failed := failed st1 + 1,
                                            logged := logged st1 @ [LogKeyNotFound (matches ! 3)]\<rparr>))
                       | Inl e1 \<Rightarrow>
                           Return (matches ! 0,
                                   st1\<lparr>failed := failed st1 + 1,
                                       logged := logged st1 @ [LogJSONError e1]\<rparr>))
                  else Return (matches ! 0, st1))))"

definition envPass :: "host \<Rightarrow> string \<Rightarrow> (string \<times> unit) result" where
  "envPass os line = ReplaceAllStringFunc envVarRegex_at (envVarCallback os) line ()"

definition secretPass :: "provider \<Rightarrow> host \<Rightarrow> string \<Rightarrow> run \<Rightarrow> (string \<times> run) result" where
  "secretPass sdk os line st =
     ReplaceAllStringFunc placeholderRegex_at (placeholderCallback sdk os) line st"

definition processLine :: "provider \<Rightarrow> host \<Rightarrow> files \<Rightarrow> string \<Rightarrow> run \<Rightarrow> run result" where
  \<comment> \<open>the body of the loop over the lines\<close>
  "processLine sdk os fs line st =
     (if commentRegex line then Return (st\<lparr>writer := Fprintln fs line (writer st)\<rparr>)
      else
        (case envPass os line of
           Panic p \<Rightarrow> Panic p
         | Return (processedLine, u) \<Rightarrow>
             (case secretPass sdk os processedLine st of
                Panic p \<Rightarrow> Panic p
              | Return (processedLine1, st1) \<Rightarrow>
                  Return (st1\<lparr>writer := Fprintln fs processedLine1 (writer st1)\<rparr>))))"

fun processLines :: "provider \<Rightarrow> host \<Rightarrow> files \<Rightarrow> string list \<Rightarrow> run \<Rightarrow> run result" where
  \<comment> \<open>\<open>for scanner.Scan() { ... }\<close>\<close>
  "processLines sdk os fs [] st = Return st"
| "processLines sdk os fs (line # rest) st =
     (case processLine sdk os fs line st of
        Panic p \<Rightarrow> Panic p
      | Return st1 \<Rightarrow> processLines sdk os fs rest st1)"

definition new_run :: "string \<Rightarrow> string \<Rightarrow> run" where
  \<comment> \<open>the state in which the loop starts: a new client, an empty output file and buffer,
      \<open>failed := 0\<close>\<close>
  "new_run prof reg =
     \<lparr>aws_client = NewAWSClient prof reg, history = [], failed = 0, logged = [],
      writer = \<lparr>wfile = [], wbuf = [], werr = None\<rparr>\<rparr>"

text \<open>
  What a call of \<open>processTemplateFile\<close> leaves behind: the error it returns, the content
  of the output file (\<open>None\<close>: the file was not created), the log and the provider calls.
\<close>

record outcome =
  returned :: "error option"
  outfile :: "string option"
  log_lines :: "log_entry list"
  provider_calls :: "event list"

definition processTemplateFile ::
  "provider \<Rightarrow> host \<Rightarrow> files \<Rightarrow> string \<Rightarrow> string \<Rightarrow> string \<Rightarrow> string \<Rightarrow> outcome result" where
  "processTemplateFile sdk os fs inputFilePath outputFilePath prof reg =
     (if \<not> input_exists fs then
        Return \<lparr>returned = Some (InputNotFound inputFilePath), outfile = None,
                log_lines = [], provider_calls = []\<rparr>
      else
        (case open_error fs of
           Some e \<Rightarrow>
             Return \<lparr>returned = Some (OpenError inputFilePath e), outfile = None,
                     log_lines = [], provider_calls = []\<rparr>
         | None \<Rightarrow>
             (case create_error fs of
                Some e \<Rightarrow>
                  Return \<lparr>returned = Some (CreateError outputFilePath e), outfile = None,
                          log_lines = [], provider_calls = []\<rparr>
              | None \<Rightarrow>
                  (case processLines sdk os fs (input_lines fs) (new_run prof reg) of
                     Panic p \<Rightarrow> Panic p
                   | Return st \<Rightarrow>
                       if failed st > 0 then
                         Return \<lparr>returned = Some (ItemsNotReplaced (failed st)),
                                 outfile = Some (wfile (writer st)),
                                 log_lines = logged st, provider_calls = history st\<rparr>
                       else
                         let w = Flush fs (writer st) in
                         (case werr w of
                            Some e \<Rightarrow>
                              Return \<lparr>returned = Some (WriteError e), outfile = Some (wfile w),
                                      log_lines = logged st, provider_calls = history st\<rparr>
                          | None \<Rightarrow>
                              (case scan_error fs of
                                 Some e \<Rightarrow>
                                   Return \<lparr>returned = Some (ReadError e), outfile = Some (wfile w),
                                           log_lines = logged st, provider_calls = history st\<rparr>
                               | None \<Rightarrow>
                                   Return \<lparr>returned = None, outfile = Some (wfile w),
                                           log_lines = logged st, provider_calls = history st\<rparr>))))))"

section \<open>Notions used in the statements\<close>

definition prepend_output :: "string \<Rightarrow> (string \<times> 's) result \<Rightarrow> (string \<times> 's) result" where
  \<comment> \<open>a piece of output in front of what the rest of a pass produces\<close>
  "prepend_output pre res =
     (case res of Panic p \<Rightarrow> Panic p | Return (out, st) \<Rightarrow> Return (pre @ out, st))"

definition emitted :: "Writer \<Rightarrow> string" where
  \<comment> \<open>all bytes the writer has taken: those in the file, then those in the buffer\<close>
  "emitted w = wfile w @ wbuf w"

definition is_NAME :: "string \<Rightarrow> bool" where
  \<comment> \<open>a variable name \<open>[A-Za-z_][A-Za-z0-9_]*\<close>\<close>
  "is_NAME n =
     (case n of
        [] \<Rightarrow> False
      | c # r \<Rightarrow> (upper c \<or> lower c \<or> c = CHR ''_'') \<and> list_all env_name_char r)"

definition ends_match :: "string \<Rightarrow> bool" where
  \<comment> \<open>the text behind a name cannot continue the match: it is empty or begins with a
      character that is neither of \<open>[A-Za-z0-9_]\<close> nor \<open>}\<close>\<close>
  "ends_match post =
     (case post of [] \<Rightarrow> True | c # r \<Rightarrow> \<not> env_name_char c \<and> c \<noteq> CHR ''}'')"

definition no_second_brace :: "string \<Rightarrow> bool" where
  \<comment> \<open>the text behind a placeholder does not begin with \<open>}\<close>\<close>
  "no_second_brace post = (case post of [] \<Rightarrow> True | c # r \<Rightarrow> c \<noteq> CHR ''}'')"

section \<open>Example providers\<close>

text \<open>
  Two providers for the concrete runs below. With \<open>text_provider payload\<close> every session
  is established, its credentials are usable and every fetch completes without error
  and delivers \<open>payload\<close> as the text of the secret (\<open>None\<close>: a secret with no text). With
  \<open>no_session_provider\<close> the construction of the session fails: the SDK hands back a
  \<open>nil\<close> session and an error.
\<close>

definition text_provider :: "string option \<Rightarrow> provider" where
  "text_provider payload =
     \<lparr>NewSessionWithOptions = (\<lambda>h opts. (Some (Session 0), None)),
      Credentials_Get = (\<lambda>h s. None),
      GetSecretValue = (\<lambda>h sv identifier. (Some \<lparr>SecretString = payload\<rparr>, None))\<rparr>"

definition no_session_provider :: provider where
  "no_session_provider =
     \<lparr>NewSessionWithOptions = (\<lambda>h opts. (None, Some (External ''failed to load shared config''))),
      Credentials_Get = (\<lambda>h s. None),
      GetSecretValue = (\<lambda>h sv identifier. (Some \<lparr>SecretString = None\<rparr>, None))\<rparr>"

text \<open>
  An example host: the variable \<open>VAR\<close> is set to \<open>hello\<close> and no other variable is set. Of
  \<open>json.Unmarshal\<close> it knows one object, \<open>example_secret\<close>; it reports every other text as
  invalid JSON, which is what \<open>json.Unmarshal\<close> does with the empty text, the only other
  text it is given below.
\<close>

definition example_secret :: string where
  \<open>example_secret = ''{"user":"alice","pass":"s3cr3t"}''\<close>

definition example_host :: host where
  "example_host =
     \<lparr>Getenv = (\<lambda>name. if name = ''VAR'' then ''hello'' else []),
      Unmarshal = (\<lambda>text.
        if text = example_secret
        then Inr (map_of [(''user'', ''alice''), (''pass'', ''s3cr3t'')])
        else if text = [] then Inl (External ''unexpected end of JSON input'')
        else Inl (External ''invalid character''))\<rparr>"

definition example_files :: "string list \<Rightarrow> files" where
  \<comment> \<open>an input file with the given lines, and no I/O error\<close>
  "example_files ls =
     \<lparr>input_exists = True, open_error = None, create_error = None,
      input_lines = ls, scan_error = None, write_error = None\<rparr>"

section \<open>Verified properties: the identifier classifier\<close>

lemmas char_classes =
  lower_def upper_def digit_def alnum_def word_def space_def arn_name_char_def name_char_def

lemma MatchString_here: "at s \<Longrightarrow> MatchString at s"
  by (cases s) simp_all

lemma MatchString_append: "at x \<Longrightarrow> MatchString at (p @ x)"
  by (induction p) (simp_all add: MatchString_here)

lemma nameRestrictionRegex_suffix:
  "length t = 6 \<Longrightarrow> list_all alnum t \<Longrightarrow> nameRestrictionRegex (p @ ''-'' @ t)"
  unfolding nameRestrictionRegex_def
  by (rule MatchString_append) (simp add: nameRestriction_at_def)

lemma not_valid_db_passwd: "\<not> isValidSecretIdentifier ''db-passwd''"
  by (simp add: isValidSecretIdentifier_def arnRegex_def nameRegex_def
      nameRestrictionRegex_def nameRestriction_at_def literal_def char_classes)

text \<open>
  Claim C5. \<open>isValidSecretIdentifier\<close> rejects every identifier that is not of the ARN
  form and ends in a hyphen followed by exactly six alphanumeric characters, whatever
  stands before the hyphen; it accepts every string of the ARN form, whatever its
  suffix. So \<open>my-secret-AbC123\<close> is rejected, the full ARN that carries the same suffix is
  accepted, and the empty string is rejected.
\<close>

theorem isValidSecretIdentifier_suffix_boundary:
  "(length t = 6 \<and> list_all alnum t \<and> \<not> arnRegex (p @ ''-'' @ t)
      \<longrightarrow> \<not> isValidSecretIdentifier (p @ ''-'' @ t)) \<and>
   (arnRegex s \<longrightarrow> isValidSecretIdentifier s) \<and>
   \<not> isValidSecretIdentifier ''my-secret-AbC123'' \<and>
   isValidSecretIdentifier ''arn:aws:secretsmanager:us-east-1:123456789012:secret:my-secret-AbC123'' \<and>
   \<not> isValidSecretIdentifier []"
proof -
  have a: "length t = 6 \<and> list_all alnum t \<and> \<not> arnRegex (p @ ''-'' @ t)
      \<longrightarrow> \<not> isValidSecretIdentifier (p @ ''-'' @ t)"
    using nameRestrictionRegex_suffix [of t p] by (simp add: isValidSecretIdentifier_def)
  have b: "arnRegex s \<longrightarrow> isValidSecretIdentifier s"
    by (auto simp: isValidSecretIdentifier_def arnRegex_def literal_def)
  have c: "\<not> isValidSecretIdentifier ''my-secret-AbC123''"
    by (simp add: isValidSecretIdentifier_def arnRegex_def nameRegex_def
        nameRestrictionRegex_def nameRestriction_at_def literal_def char_classes)
  have d: "isValidSecretIdentifier
      ''arn:aws:secretsmanager:us-east-1:123456789012:secret:my-secret-AbC123''"
    by (simp add: isValidSecretIdentifier_def arnRegex_def region_at_def literal_def char_classes)
  have e: "\<not> isValidSecretIdentifier []"
    by (simp add: isValidSecretIdentifier_def)
  from a b c d e show ?thesis by blast
qed

theorem isValidSecretIdentifier_suffix_boundary_witness:
  "length ''AbC123'' = 6 \<and> list_all alnum ''AbC123'' \<and>
   \<not> arnRegex (''my-secret'' @ ''-'' @ ''AbC123'') \<and>
   \<not> isValidSecretIdentifier (''my-secret'' @ ''-'' @ ''AbC123'') \<and>
   arnRegex ''arn:aws:secretsmanager:us-east-1:123456789012:secret:my-secret-AbC123'' \<and>
   isValidSecretIdentifier ''arn:aws:secretsmanager:us-east-1:123456789012:secret:my-secret-AbC123''"
proof -
  have h1: "length ''AbC123'' = 6 \<and> list_all alnum ''AbC123'' \<and>
      \<not> arnRegex (''my-secret'' @ ''-'' @ ''AbC123'')"
    by (simp add: arnRegex_def literal_def char_classes)
  have h2: "arnRegex ''arn:aws:secretsmanager:us-east-1:123456789012:secret:my-secret-AbC123''"
    by (simp add: arnRegex_def region_at_def literal_def char_classes)
  from h1 h2 isValidSecretIdentifier_suffix_boundary [of "''AbC123''" "''my-secret''"
      "''arn:aws:secretsmanager:us-east-1:123456789012:secret:my-secret-AbC123''"]
  show ?thesis by blast
qed

section \<open>Verified properties: the secret resolver\<close>

lemmas classifier_defs = isValidSecretIdentifier_def arnRegex_def nameRegex_def
  nameRestrictionRegex_def nameRestriction_at_def regionRegex_at_def region_at_def literal_def
  char_classes

lemmas resolver_defs = GetSecret_def getService_def getSession_def
  NewAWSClient_def text_provider_def no_session_provider_def Let_def

lemma valid_X: "isValidSecretIdentifier ''X''"
  by (simp add: classifier_defs)

lemma region_X: "getRegionFromIdentifier cl ''X'' = defaultRegion cl"
  by (simp add: getRegionFromIdentifier_def classifier_defs)

lemma getSession_tables:
  "getSession sdk region client h = Return (x, client1, h1) \<Longrightarrow>
   secrets client1 = secrets client \<and> services client1 = services client \<and>
   profile client1 = profile client \<and> defaultRegion client1 = defaultRegion client"
  by (auto simp: getSession_def Let_def split: option.splits prod.splits)

lemma getService_tables:
  "getService sdk region client h = Return (x, client1, h1) \<Longrightarrow>
   secrets client1 = secrets client \<and>
   profile client1 = profile client \<and> defaultRegion client1 = defaultRegion client"
  by (auto simp: getService_def Let_def split: option.splits prod.splits result.splits
      dest!: getSession_tables)

lemma GetSecret_keeps:
  "GetSecret sdk j client h = Return (x, client1, h1) \<Longrightarrow> secrets client i = Some ci \<Longrightarrow>
   secrets client1 i = Some ci"
  by (auto simp: GetSecret_def Let_def split: if_splits option.splits prod.splits result.splits
      dest!: getService_tables)

lemma GetSecret_stores:
  "GetSecret sdk i client h = Return ((v, e), client1, h1) \<Longrightarrow> isValidSecretIdentifier i \<Longrightarrow>
   secrets client1 i = Some \<lparr>item = v, err = e\<rparr>"
  by (auto simp: GetSecret_def Let_def split: if_splits option.splits prod.splits result.splits
      dest!: getService_tables)

lemma GetSecret_calls_keeps:
  "GetSecret_calls sdk js client h = Return (client1, h1) \<Longrightarrow> secrets client i = Some ci \<Longrightarrow>
   secrets client1 i = Some ci"
proof (induction js arbitrary: client h)
  case Nil
  then show ?case by simp
next
  case (Cons j js)
  then show ?case
    by (auto split: result.splits dest: GetSecret_keeps)
qed

lemma GetSecret_cached:
  "isValidSecretIdentifier i \<Longrightarrow> secrets client i = Some ci \<Longrightarrow>
   GetSecret sdk i client h = Return ((item ci, err ci), client, h)"
  by (simp add: GetSecret_def)

lemma GetSecret_other_key:
  "GetSecret sdk j client h = Return (x, client1, h1) \<Longrightarrow> j \<noteq> s \<Longrightarrow>
   secrets client1 s = secrets client s"
  by (auto simp: GetSecret_def Let_def split: if_splits option.splits prod.splits result.splits
      dest!: getService_tables)

text \<open>
  Claim C4. For every string that \<open>isValidSecretIdentifier\<close> rejects, \<open>GetSecret\<close> returns
  the InvalidIdentifier error at once and hands back the client and the history of
  provider calls as it received them: no entry is written to the sessions, services or
  secrets table, and the provider is not called. Nor does a call for any identifier
  ever write an entry of the secrets table under a rejected string.
\<close>

theorem GetSecret_invalid_identifier:
  assumes "\<not> isValidSecretIdentifier s"
  shows "GetSecret sdk s client h = Return (([], Some (InvalidIdentifier s)), client, h) \<and>
         (\<forall>j r client1 h1. GetSecret sdk j client h = Return (r, client1, h1) \<longrightarrow>
            secrets client1 s = secrets client s)"
proof -
  have a: "GetSecret sdk s client h = Return (([], Some (InvalidIdentifier s)), client, h)"
    using assms by (simp add: GetSecret_def)
  have b: "secrets client1 s = secrets client s"
    if "GetSecret sdk j client h = Return (r, client1, h1)" for j r client1 h1
  proof (cases "j = s")
    case True
    with that a show ?thesis by simp
  next
    case False
    with that show ?thesis by (rule GetSecret_other_key)
  qed
  from a b show ?thesis by blast
qed

theorem GetSecret_invalid_identifier_witness:
  "\<not> isValidSecretIdentifier ''db-passwd'' \<and>
   GetSecret (text_provider None) ''db-passwd'' (NewAWSClient ''default'' []) [] =
     Return (([], Some (InvalidIdentifier ''db-passwd'')), NewAWSClient ''default'' [], []) \<and>
   (\<exists>r client1 h1.
      GetSecret (text_provider None) ''X'' (NewAWSClient ''default'' []) [] = Return (r, client1, h1) \<and>
      secrets client1 ''db-passwd'' = None)"
proof -
  obtain r client1 h1 where
    a: "GetSecret (text_provider None) ''X'' (NewAWSClient ''default'' []) [] = Return (r, client1, h1)"
    by (simp add: resolver_defs valid_X region_X)
  have e: "secrets (NewAWSClient ''default'' []) ''db-passwd'' = None"
    by (simp add: NewAWSClient_def)
  from GetSecret_invalid_identifier [OF not_valid_db_passwd, of "text_provider None"
      "NewAWSClient ''default'' []" "[]"] a e
  have "secrets client1 ''db-passwd'' = None"
    by metis
  with a not_valid_db_passwd
    GetSecret_invalid_identifier [OF not_valid_db_passwd, of "text_provider None"
      "NewAWSClient ''default'' []" "[]"]
  show ?thesis by blast
qed

text \<open>
  Claim C1. Once a call \<open>GetSecret i\<close> has returned \<open>r\<close> (a value or an error), every later
  call \<open>GetSecret i\<close> in the run, after any number of calls for any identifiers in
  between, returns the same \<open>r\<close> and leaves the client and the history of provider calls
  as they were: no session or service is built and no secret is fetched. The later call
  does not depend on the provider at all (\<open>sdk'\<close> is any provider).
\<close>

theorem GetSecret_at_most_once:
  assumes first: "GetSecret sdk i client h = Return (r, client1, h1)"
    and between: "GetSecret_calls sdk js client1 h1 = Return (client2, h2)"
  shows "GetSecret sdk' i client2 h2 = Return (r, client2, h2)"
proof (cases "isValidSecretIdentifier i")
  case False
  with first have "r = ([], Some (InvalidIdentifier i))"
    by (simp add: GetSecret_def)
  with False show ?thesis
    by (simp add: GetSecret_def)
next
  case True
  obtain v e where r: "r = (v, e)" by (cases r)
  from first True have "secrets client1 i = Some \<lparr>item = v, err = e\<rparr>"
    unfolding r by (rule GetSecret_stores)
  with between have "secrets client2 i = Some \<lparr>item = v, err = e\<rparr>"
    by (rule GetSecret_calls_keeps)
  with True show ?thesis
    unfolding r by (simp add: GetSecret_cached)
qed

theorem GetSecret_at_most_once_witness:
  "\<exists>r client1 h1 client2 h2.
     GetSecret (text_provider (Some ''s3cr3t'')) ''X'' (NewAWSClient ''default'' []) [] =
       Return (r, client1, h1) \<and>
     GetSecret_calls (text_provider (Some ''s3cr3t'')) [''db-passwd'', ''X''] client1 h1 =
       Return (client2, h2) \<and>
     GetSecret no_session_provider ''X'' client2 h2 = Return (r, client2, h2)"
proof -
  obtain r client1 h1 where
    a: "GetSecret (text_provider (Some ''s3cr3t'')) ''X'' (NewAWSClient ''default'' []) [] =
          Return (r, client1, h1)"
    by (simp add: resolver_defs valid_X region_X)
  obtain x client2 h2 where
    b: "GetSecret (text_provider (Some ''s3cr3t'')) ''X'' client1 h1 = Return (x, client2, h2)"
    using GetSecret_at_most_once [OF a, where js = "[]" and sdk' = "text_provider (Some ''s3cr3t'')"]
    by simp
  have c: "GetSecret_calls (text_provider (Some ''s3cr3t'')) [''db-passwd'', ''X''] client1 h1 =
      Return (client2, h2)"
    using b by (simp add: GetSecret_def not_valid_db_passwd)
  from a c GetSecret_at_most_once [OF a c] show ?thesis by blast
qed

text \<open>
  Claim C3, as the code has it. For a valid identifier that is not cached yet, whose
  service is obtained and whose fetch completes without error, \<open>GetSecret\<close> succeeds
  exactly when the payload carries a text, and returns and caches that text as it is,
  empty or not; a payload without a text yields the SecretNotText error.
\<close>

theorem GetSecret_text_payload:
  assumes "isValidSecretIdentifier identifier"
    and "secrets client identifier = None"
    and "getService sdk (getRegionFromIdentifier client identifier) client h =
           Return ((Some sv, None), client1, h1)"
    and "GetSecretValue sdk h1 sv identifier = (Some out, None)"
  shows "GetSecret sdk identifier client h =
           Return ((case SecretString out of
                      Some s \<Rightarrow> (s, None)
                    | None \<Rightarrow> ([], Some (SecretNotText identifier))),
                   client1\<lparr>secrets := (secrets client1)(identifier \<mapsto>
                     (case SecretString out of
                        Some s \<Rightarrow> \<lparr>item = s, err = None\<rparr>
                      | None \<Rightarrow> \<lparr>item = [], err = Some (SecretNotText identifier)\<rparr>))\<rparr>,
                   h1 @ [GetSecretValueCall sv identifier])"
  using assms by (simp add: GetSecret_def Let_def split: option.splits)

theorem GetSecret_text_payload_witness:
  "\<exists>client1 h1 client2 h2.
     isValidSecretIdentifier ''X'' \<and>
     secrets (NewAWSClient ''default'' []) ''X'' = None \<and>
     getService (text_provider None) (getRegionFromIdentifier (NewAWSClient ''default'' []) ''X'')
         (NewAWSClient ''default'' []) [] =
       Return ((Some (SecretsManager (Session 0)), None), client1, h1) \<and>
     GetSecretValue (text_provider None) h1 (SecretsManager (Session 0)) ''X'' =
       (Some \<lparr>SecretString = None\<rparr>, None) \<and>
     GetSecret (text_provider None) ''X'' (NewAWSClient ''default'' []) [] =
       Return (([], Some (SecretNotText ''X'')), client2, h2)"
proof -
  have a: "secrets (NewAWSClient ''default'' []) ''X'' = None"
    by (simp add: NewAWSClient_def)
  obtain client1 h1 where
    b: "getService (text_provider None) (getRegionFromIdentifier (NewAWSClient ''default'' []) ''X'')
          (NewAWSClient ''default'' []) [] =
        Return ((Some (SecretsManager (Session 0)), None), client1, h1)"
    by (simp add: resolver_defs region_X)
  have c: "GetSecretValue (text_provider None) h1 (SecretsManager (Session 0)) ''X'' =
      (Some \<lparr>SecretString = None\<rparr>, None)"
    by (simp add: text_provider_def)
  from valid_X a b c GetSecret_text_payload [OF valid_X a b c] show ?thesis by simp
qed

text \<open>
  Claim C3 as stated fails: a fetch that completes with a text that is present but
  empty makes \<open>GetSecret\<close> return the empty string with no error.
\<close>

theorem GetSecret_empty_payload_counterexample:
  "GetSecretValue (text_provider (Some []))
     [NewSessionCall \<lparr>Profile = ''default'', Region = None, SharedConfigEnable = True\<rparr>,
      CredentialsGetCall (Session 0), NewServiceCall (Session 0)]
     (SecretsManager (Session 0)) ''X'' = (Some \<lparr>SecretString = Some []\<rparr>, None) \<and>
   (\<exists>client1. GetSecret (text_provider (Some [])) ''X'' (NewAWSClient ''default'' []) [] =
     Return (([], None), client1,
       [NewSessionCall \<lparr>Profile = ''default'', Region = None, SharedConfigEnable = True\<rparr>,
        CredentialsGetCall (Session 0), NewServiceCall (Session 0),
        GetSecretValueCall (SecretsManager (Session 0)) ''X'']))"
  by (simp add: resolver_defs valid_X region_X)

text \<open>
  Claim C6 fails on the code. When the construction of the session fails, the SDK
  returns a \<open>nil\<close> session with the error; \<open>getSession\<close> records the error and then reads
  the credentials through the \<open>nil\<close> session. The panic goes through \<open>getService\<close> and
  \<open>GetSecret\<close>; nothing is returned and nothing is cached.
\<close>

theorem getSession_session_error_panics:
  "getSession no_session_provider ''us-east-1'' (NewAWSClient ''default'' []) [] =
     Panic ''invalid memory address or nil pointer dereference'' \<and>
   getService no_session_provider ''us-east-1'' (NewAWSClient ''default'' []) [] =
     Panic ''invalid memory address or nil pointer dereference'' \<and>
   GetSecret no_session_provider ''X'' (NewAWSClient ''default'' []) [] =
     Panic ''invalid memory address or nil pointer dereference''"
  by (simp add: resolver_defs valid_X region_X)

section \<open>Verified properties: the substitution engine\<close>

lemma RASF_Nil: "ReplaceAllStringFunc at repl [] st = Return ([], st)"
  by (simp add: ReplaceAllStringFunc.simps)

lemma RASF_nomatch:
  "at (c # cs) = None \<Longrightarrow>
   ReplaceAllStringFunc at repl (c # cs) st = prepend_output [c] (ReplaceAllStringFunc at repl cs st)"
  by (subst ReplaceAllStringFunc.simps) (simp add: prepend_output_def split: result.splits)

lemma RASF_match:
  assumes a: "at (m @ rest) = Some (m, groups)" and ne: "m \<noteq> []"
  shows "ReplaceAllStringFunc at repl (m @ rest) st =
     (case repl m st of
        Panic p \<Rightarrow> Panic p
      | Return (r, st1) \<Rightarrow> prepend_output r (ReplaceAllStringFunc at repl rest st1))"
proof -
  obtain c cs where m: "m = c # cs"
    using ne by (cases m) auto
  have d: "drop (length cs) (cs @ rest) = rest"
    by simp
  have src: "m @ rest = c # (cs @ rest)"
    by (simp add: m)
  have a': "at (c # (cs @ rest)) = Some (c # cs, groups)"
    using a by (simp add: m)
  show ?thesis
    unfolding src
    by (subst ReplaceAllStringFunc.simps)
      (simp add: a' m d prepend_output_def split: result.splits prod.splits)
qed

lemma prepend_output_append:
  "prepend_output a (prepend_output b res) = prepend_output (a @ b) res"
  by (auto simp: prepend_output_def split: result.splits)

lemma prepend_output_Nil: "prepend_output [] res = res"
  by (auto simp: prepend_output_def split: result.splits)

lemma RASF_skip:
  "(\<And>k. k < length pre \<Longrightarrow> at (drop k pre @ s) = None) \<Longrightarrow>
   ReplaceAllStringFunc at repl (pre @ s) st =
     prepend_output pre (ReplaceAllStringFunc at repl s st)"
proof (induction pre)
  case Nil
  show ?case by (simp add: prepend_output_Nil)
next
  case (Cons c pre)
  have here: "at (c # pre @ s) = None"
    using Cons.prems [of 0] by simp
  have later: "\<And>k. k < length pre \<Longrightarrow> at (drop k pre @ s) = None"
    using Cons.prems [of "Suc k" for k] by simp
  show ?case
    using RASF_nomatch [where at = at and c = c and cs = "pre @ s" and repl = repl and st = st, OF here] Cons.IH [OF later]
    by (simp add: prepend_output_append)
qed

lemma bufio_Write_emitted:
  "werr w = None \<Longrightarrow> write_error fs = None \<Longrightarrow>
   emitted (bufio_Write fs p w) = emitted w @ p \<and> werr (bufio_Write fs p w) = None"
  by (auto simp: bufio_Write_def Flush_def file_Write_def emitted_def Let_def Available_def
      split: if_splits)

lemma dropWhile_run: "list_all P xs \<Longrightarrow> \<not> P y \<Longrightarrow> dropWhile P (xs @ y # ys) = y # ys"
  by (induction xs) simp_all

lemma takeWhile_run: "list_all P xs \<Longrightarrow> \<not> P y \<Longrightarrow> takeWhile P (xs @ y # ys) = xs"
  by (induction xs) simp_all

lemma takeWhile_all: "list_all P xs \<Longrightarrow> takeWhile P xs = xs"
  by (induction xs) simp_all

lemma dropWhile_all: "list_all P xs \<Longrightarrow> dropWhile P xs = []"
  by (induction xs) simp_all

lemma commentRegex_shape:
  "list_all space ws \<Longrightarrow> c \<in> set ''#/*'' \<Longrightarrow> commentRegex (ws @ c # rest)"
proof -
  assume ws: "list_all space ws" and c: "c \<in> set ''#/*''"
  from c have "\<not> space c" by (auto simp: space_def)
  with ws have "dropWhile space (ws @ c # rest) = c # rest" by (rule dropWhile_run)
  with c show ?thesis by (simp add: commentRegex_def)
qed

text \<open>
  Claim C8. A line that, after any run of whitespace, begins with \<open>#\<close>, \<open>/\<close> or \<open>*\<close> is
  handed to the writer as it is, followed by a newline, whatever else it contains; the
  client, the history of provider calls, the counter and the log stay as they were, so
  neither pass has touched the line. When no write has failed, the bytes the writer has
  taken grow by exactly the line and the newline.
\<close>

theorem comment_passthrough:
  assumes "list_all space ws" and "c \<in> set ''#/*''"
  shows "processLine sdk os fs (ws @ c # rest) st =
           Return (st\<lparr>writer := Fprintln fs (ws @ c # rest) (writer st)\<rparr>) \<and>
         (werr (writer st) = None \<and> write_error fs = None \<longrightarrow>
            emitted (Fprintln fs (ws @ c # rest) (writer st)) =
              emitted (writer st) @ (ws @ c # rest) @ [CHR 0x0A])"
  using commentRegex_shape [OF assms] bufio_Write_emitted [of "writer st" fs]
  by (simp add: processLine_def Fprintln_def)


theorem comment_passthrough_witness:
  "list_all space ''  '' \<and> CHR ''#'' \<in> set ''#/*'' \<and>
   processLine (text_provider (Some ''s3cr3t'')) example_host (example_files [])
       ''  # password={X} ${VAR}'' (new_run ''default'' []) =
     Return ((new_run ''default'' [])
       \<lparr>writer := \<lparr>wfile = [], wbuf = ''  # password={X} ${VAR}'' @ [CHR 0x0A], werr = None\<rparr>\<rparr>) \<and>
   emitted (Fprintln (example_files []) ''  # password={X} ${VAR}''
       (writer (new_run ''default'' []))) =
     ''  # password={X} ${VAR}'' @ [CHR 0x0A]"
proof -
  have a: "list_all space ''  ''" by (simp add: space_def)
  have b: "CHR ''#'' \<in> set ''#/*''" by simp
  have c: "Fprintln (example_files []) ''  # password={X} ${VAR}''
      (writer (new_run ''default'' [])) =
      \<lparr>wfile = [], wbuf = ''  # password={X} ${VAR}'' @ [CHR 0x0A], werr = None\<rparr>"
    by (simp add: Fprintln_def bufio_Write_def Available_def new_run_def)
  have d: "werr (writer (new_run ''default'' [])) = None" "write_error (example_files []) = None"
    "emitted (writer (new_run ''default'' [])) = []"
    by (simp_all add: new_run_def example_files_def emitted_def)
  from a b comment_passthrough [OF a b, of "text_provider (Some ''s3cr3t'')" example_host
      "example_files []" "'' password={X} ${VAR}''" "new_run ''default'' []"]
  show ?thesis
    by (simp add: c d)
qed

lemma FindStringSubmatch_at: "at s = Some (m, groups) \<Longrightarrow> FindStringSubmatch at s = m # groups"
  by (cases s) simp_all

lemma not_name_char_brace: "\<not> env_name_char (CHR ''}'')"
  by (simp add: env_name_char_def char_classes)

lemma envVar_name_NAME:
  assumes n: "is_NAME n" and cb: "cb = ''}'' \<or> cb = [] \<and> ends_match post"
  shows "envVar_name (n @ cb @ post) = Some (n, n @ cb)"
proof -
  from n obtain c r where nc: "n = c # r" and c: "upper c \<or> lower c \<or> c = CHR ''_''"
    and r: "list_all env_name_char r"
    by (auto simp: is_NAME_def split: list.splits)
  from c have start: "env_name_start c" by (auto simp: env_name_start_def)
  from cb show ?thesis
  proof
    assume "cb = ''}''"
    with r start show ?thesis
      by (simp add: nc envVar_name_def Let_def takeWhile_run dropWhile_run not_name_char_brace)
  next
    assume e: "cb = [] \<and> ends_match post"
    show ?thesis
    proof (cases post)
      case Nil
      with e r start show ?thesis
        by (simp add: nc envVar_name_def Let_def takeWhile_all dropWhile_all)
    next
      case (Cons d r1)
      with e have "\<not> env_name_char d" and "d \<noteq> CHR ''}''"
        by (simp_all add: ends_match_def)
      with e r start Cons show ?thesis
        by (simp add: nc envVar_name_def Let_def takeWhile_run dropWhile_run)
    qed
  qed
qed

lemma NAME_not_brace: "is_NAME n \<Longrightarrow> \<exists>c r. n = c # r \<and> c \<noteq> CHR ''{'' \<and> c \<noteq> CHR ''$''"
  by (auto simp: is_NAME_def char_classes split: list.splits)

lemma envVar_dollar_NAME:
  assumes n: "is_NAME n" and ib: "ib = [] \<or> ib = ''{''"
    and cb: "cb = ''}'' \<or> cb = [] \<and> ends_match post"
  shows "envVar_dollar (''$'' @ ib @ n @ cb @ post) = Some (n, ''$'' @ ib @ n @ cb)"
proof -
  note nm = envVar_name_NAME [OF n cb]
  from NAME_not_brace [OF n] obtain c r where nc: "n = c # r" and c: "c \<noteq> CHR ''{''"
    by blast
  from ib show ?thesis
  proof
    assume "ib = []"
    with nm c show ?thesis
      by (simp add: envVar_dollar_def nc)
  next
    assume "ib = ''{''"
    with nm show ?thesis
      by (simp add: envVar_dollar_def)
  qed
qed

lemma envVarRegex_at_NAME:
  assumes n: "is_NAME n" and ob: "ob = [] \<or> ob = ''{''" and ib: "ib = [] \<or> ib = ''{''"
    and cb: "cb = ''}'' \<or> cb = [] \<and> ends_match post"
  shows "envVarRegex_at (ob @ ''$'' @ ib @ n @ cb @ post) = Some (ob @ ''$'' @ ib @ n @ cb, [n])"
proof -
  note d = envVar_dollar_NAME [OF n ib cb]
  from ob show ?thesis
  proof
    assume "ob = []"
    with d show ?thesis
      by (simp add: envVarRegex_at_def)
  next
    assume "ob = ''{''"
    with d show ?thesis
      by (simp add: envVarRegex_at_def)
  qed
qed

lemma envVarCallback_NAME:
  assumes n: "is_NAME n" and ob: "ob = [] \<or> ob = ''{''" and ib: "ib = [] \<or> ib = ''{''"
    and cb: "cb = [] \<or> cb = ''}''"
  shows "envVarCallback os (ob @ ''$'' @ ib @ n @ cb) u =
           Return (if Getenv os n \<noteq> [] then Getenv os n else ob @ ''$'' @ ib @ n @ cb, u)"
proof -
  from cb have cb': "cb = ''}'' \<or> cb = [] \<and> ends_match []"
    by (auto simp: ends_match_def)
  from envVarRegex_at_NAME [OF n ob ib cb']
  have "FindStringSubmatch envVarRegex_at (ob @ ''$'' @ ib @ n @ cb) = [ob @ ''$'' @ ib @ n @ cb, n]"
    by (simp add: FindStringSubmatch_at)
  then show ?thesis
    by (simp add: envVarCallback_def)
qed

lemma envVarRegex_at_no_dollar:
  "c \<noteq> CHR ''$'' \<Longrightarrow> (c = CHR ''{'' \<Longrightarrow> r = [] \<or> hd r \<noteq> CHR ''$'') \<Longrightarrow>
   envVarRegex_at (c # r) = None"
  by (cases r) (auto simp: envVarRegex_at_def envVar_dollar_def)

lemma envVarRegex_at_before:
  assumes pre: "CHR ''$'' \<notin> set pre" and k: "k < length pre"
    and nxt: "pre \<noteq> [] \<Longrightarrow> last pre = CHR ''{'' \<Longrightarrow> s \<noteq> [] \<and> hd s \<noteq> CHR ''$''"
  shows "envVarRegex_at (drop k pre @ s) = None"
proof -
  from k obtain c r where d: "drop k pre = c # r"
    by (cases "drop k pre") auto
  have sub: "set (drop k pre) \<subseteq> set pre"
    by (rule set_drop_subset)
  with pre d have c: "c \<noteq> CHR ''$''" by auto
  have "c = CHR ''{'' \<Longrightarrow> r @ s = [] \<or> hd (r @ s) \<noteq> CHR ''$''"
  proof (cases r)
    case Nil
    assume "c = CHR ''{''"
    moreover from d Nil k have "last pre = c"
      by (metis last_drop last_ConsL)
    moreover from k have "pre \<noteq> []" by auto
    ultimately show ?thesis using nxt Nil by simp
  next
    case (Cons b r1)
    with sub pre d have "b \<noteq> CHR ''$''" by auto
    with Cons show ?thesis by simp
  qed
  with c show ?thesis
    unfolding d by (simp add: envVarRegex_at_no_dollar)
qed

lemma envPass_placeholder_step:
  assumes n: "is_NAME n"
    and ob: "ob = [] \<or> ob = ''{''" and ib: "ib = [] \<or> ib = ''{''" and cb: "cb = [] \<or> cb = ''}''"
    and pre: "CHR ''$'' \<notin> set pre"
    and before: "ob = [] \<Longrightarrow> pre = [] \<or> last pre \<noteq> CHR ''{''"
    and after: "cb = [] \<Longrightarrow> ends_match post"
  shows "envPass os (pre @ (ob @ ''$'' @ ib @ n @ cb) @ post) =
           prepend_output
             (pre @ (if Getenv os n \<noteq> [] then Getenv os n else ob @ ''$'' @ ib @ n @ cb))
             (envPass os post)"
proof -
  let ?p = "ob @ ''$'' @ ib @ n @ cb"
  from cb after have cb': "cb = ''}'' \<or> cb = [] \<and> ends_match post" by auto
  have m: "envVarRegex_at (?p @ post) = Some (?p, [n])"
    using envVarRegex_at_NAME [OF n ob ib cb'] by simp
  have ne: "?p \<noteq> []" by simp
  have nxt: "pre \<noteq> [] \<Longrightarrow> last pre = CHR ''{'' \<Longrightarrow> ?p @ post \<noteq> [] \<and> hd (?p @ post) \<noteq> CHR ''$''"
    using before ob by auto
  have skip: "\<And>k. k < length pre \<Longrightarrow> envVarRegex_at (drop k pre @ ?p @ post) = None"
    using envVarRegex_at_before [OF pre _ nxt] by blast
  have "envPass os (pre @ ?p @ post) =
      prepend_output pre (ReplaceAllStringFunc envVarRegex_at (envVarCallback os) (?p @ post) ())"
    unfolding envPass_def using skip by (rule RASF_skip)
  also have "ReplaceAllStringFunc envVarRegex_at (envVarCallback os) (?p @ post) () =
      (case envVarCallback os ?p () of
         Panic x \<Rightarrow> Panic x
       | Return (r, st1) \<Rightarrow>
           prepend_output r (ReplaceAllStringFunc envVarRegex_at (envVarCallback os) post st1))"
    by (rule RASF_match [where at = envVarRegex_at, OF m ne])
  also have "\<dots> = prepend_output (if Getenv os n \<noteq> [] then Getenv os n else ?p) (envPass os post)"
    by (simp only: envVarCallback_NAME [OF n ob ib cb] envPass_def result.case prod.case)
  finally show ?thesis
    by (simp add: prepend_output_append)
qed


lemma list_all_takeWhile: "list_all P (takeWhile P xs)"
  by (induction xs) simp_all

lemma envVar_name_Some:
  "envVar_name s = Some (name, t) \<Longrightarrow>
   \<exists>c r. s = c # r \<and> env_name_start c \<and> name = c # takeWhile env_name_char r \<and>
     (t = name \<or> t = name @ ''}'')"
  by (auto simp: envVar_name_def Let_def split: list.splits if_splits)

lemma envVar_name_again:
  assumes "env_name_start c" and "list_all env_name_char r" and "cb = [] \<or> cb = ''}''"
  shows "envVar_name (c # r @ cb) = Some (c # r, c # r @ cb)"
  using assms
  by (auto simp: envVar_name_def Let_def takeWhile_all dropWhile_all takeWhile_run dropWhile_run
      not_name_char_brace)

lemma envVar_name_rematch:
  assumes "envVar_name s = Some (name, t)"
  shows "envVar_name t = Some (name, t)"
proof -
  from envVar_name_Some [OF assms] obtain c r where
    c: "env_name_start c" and name: "name = c # takeWhile env_name_char r"
    and t: "t = name \<or> t = name @ ''}''"
    by blast
  from t obtain cb where cb: "cb = [] \<or> cb = ''}''" and t': "t = name @ cb"
    by auto
  from envVar_name_again [OF c list_all_takeWhile cb, of r] show ?thesis
    by (simp add: name t')
qed

lemma not_start_brace: "\<not> env_name_start (CHR ''}'')"
  by (simp add: env_name_start_def char_classes)

lemma envVar_name_None_prefix:
  assumes "envVar_name r = None" and "cb = [] \<or> cb = ''}''"
  shows "envVar_name (takeWhile env_name_char r @ cb) = None"
proof (cases r)
  case Nil
  with assms(2) show ?thesis
    by (auto simp: envVar_name_def not_start_brace)
next
  case (Cons d r1)
  with assms(1) have "\<not> env_name_start d"
    by (auto simp: envVar_name_def Let_def split: if_splits list.splits)
  with Cons assms(2) show ?thesis
    by (auto simp: envVar_name_def not_start_brace)
qed

lemma envVar_dollar_rematch:
  assumes "envVar_dollar s = Some (name, t)"
  shows "envVar_dollar t = Some (name, t) \<and> (\<exists>t1. t = CHR ''$'' # t1)"
proof -
  from assms obtain r where s: "s = CHR ''$'' # r"
    by (auto simp: envVar_dollar_def split: list.splits if_splits)
  let ?inner = "case r of [] \<Rightarrow> None | b # r1 \<Rightarrow> if b = CHR ''{'' then envVar_name r1 else None"
  show ?thesis
  proof (cases ?inner)
    case (Some a)
    then obtain r1 where r: "r = CHR ''{'' # r1" and a: "envVar_name r1 = Some a"
      by (auto split: list.splits if_splits)
    obtain nm t1 where a': "a = (nm, t1)" by (cases a)
    from assms have "nm = name" and t: "t = ''${'' @ t1"
      by (simp_all add: envVar_dollar_def s r a a')
    with a a' have "envVar_name t1 = Some (name, t1)"
      using envVar_name_rematch by blast
    then show ?thesis
      by (simp add: envVar_dollar_def t)
  next
    case None
    with assms obtain t1 where n: "envVar_name r = Some (name, t1)" and t: "t = CHR ''$'' # t1"
      by (auto simp: envVar_dollar_def s split: option.splits)
    from envVar_name_Some [OF n] obtain c r' where r: "r = c # r'"
      and name: "name = c # takeWhile env_name_char r'"
      and t1: "t1 = name \<or> t1 = name @ ''}''"
      by blast
    from t1 obtain cb where cb: "cb = [] \<or> cb = ''}''" and t1': "t1 = name @ cb"
      by auto
    have inner: "c = CHR ''{'' \<Longrightarrow> envVar_name (takeWhile env_name_char r' @ cb) = None"
    proof -
      assume "c = CHR ''{''"
      with None r have "envVar_name r' = None" by simp
      then show ?thesis using cb by (rule envVar_name_None_prefix)
    qed
    have "envVar_name t1 = Some (name, t1)"
      using n by (rule envVar_name_rematch)
    with inner show ?thesis
      by (auto simp: envVar_dollar_def t t1' name)
  qed
qed

lemma envVarRegex_at_rematch:
  assumes "envVarRegex_at s = Some (m, groups)"
  shows "envVarRegex_at m = Some (m, groups) \<and> m \<noteq> [] \<and> (\<exists>name. groups = [name])"
proof -
  let ?inner = "case s of [] \<Rightarrow> None | b # r \<Rightarrow> if b = CHR ''{'' then envVar_dollar r else None"
  show ?thesis
  proof (cases ?inner)
    case (Some a)
    then obtain r where s: "s = CHR ''{'' # r" and a: "envVar_dollar r = Some a"
      by (auto split: list.splits if_splits)
    obtain nm t where a': "a = (nm, t)" by (cases a)
    from assms have m: "m = ''{'' @ t" and g: "groups = [nm]"
      by (simp_all add: envVarRegex_at_def s a a')
    from a a' have "envVar_dollar t = Some (nm, t)"
      using envVar_dollar_rematch by blast
    then show ?thesis
      by (simp add: envVarRegex_at_def m g)
  next
    case None
    with assms obtain nm where d: "envVar_dollar s = Some (nm, m)" and g: "groups = [nm]"
      by (auto simp: envVarRegex_at_def split: option.splits)
    from envVar_dollar_rematch [OF d] obtain t1 where
      again: "envVar_dollar m = Some (nm, m)" and m: "m = CHR ''$'' # t1"
      by blast
    from again show ?thesis
      by (simp add: envVarRegex_at_def g m)
  qed
qed

lemma envVarCallback_returns:
  assumes "envVarRegex_at s = Some (m, groups)"
  shows "\<exists>r. envVarCallback os m u = Return (r, u)"
proof -
  from envVarRegex_at_rematch [OF assms] obtain name where
    "envVarRegex_at m = Some (m, [name])" by blast
  then have "FindStringSubmatch envVarRegex_at m = [m, name]"
    by (rule FindStringSubmatch_at)
  then show ?thesis
    by (simp add: envVarCallback_def Let_def)
qed

lemma envPass_returns: "\<exists>out. envPass os s = Return (out, ())"
proof (induction s rule: length_induct)
  case (1 s)
  show ?case
  proof (cases s)
    case Nil
    then show ?thesis by (simp add: envPass_def RASF_Nil)
  next
    case (Cons c cs)
    from 1 Cons obtain out1 where tl: "envPass os cs = Return (out1, ())"
      by auto
    show ?thesis
    proof (cases "envVarRegex_at s")
      case None
      with tl Cons show ?thesis
        by (simp add: envPass_def RASF_nomatch prepend_output_def)
    next
      case (Some a)
      obtain m groups where a: "a = (m, groups)" by (cases a)
      from Some a envVarRegex_at_rematch have ne: "m \<noteq> []" by blast
      from Some a envVarCallback_returns obtain r where
        r: "envVarCallback os m () = Return (r, ())" by blast
      from ne Cons have "length (drop (length m) s) < length s"
        by (cases m) auto
      with 1 obtain out2 where
        rest: "envPass os (drop (length m) s) = Return (out2, ())" by blast
      show ?thesis
        unfolding envPass_def
        apply (subst ReplaceAllStringFunc.simps)
        using Some a ne r rest Cons
        by (simp add: envPass_def)
    qed
  qed
qed


lemma envVarRegex_at_nonempty: "envVarRegex_at s = Some (m, groups) \<Longrightarrow> m \<noteq> []"
  using envVarRegex_at_rematch by blast

lemma placeholderRegex_at_nonempty: "placeholderRegex_at s = Some (m, groups) \<Longrightarrow> m \<noteq> []"
  by (auto simp: placeholderRegex_at_def split: list.splits if_splits option.splits)

text \<open>
  Claim C7. The environment pass always returns. Let a placeholder be \<open>$NAME\<close> with or
  without a brace before the \<open>$\<close>, after the \<open>$\<close> and behind the name (so \<open>${NAME}\<close>,
  \<open>{$NAME}\<close> and the bare \<open>$NAME\<close> are among the shapes), in a line with no \<open>$\<close> before it,
  where a placeholder that begins with \<open>$\<close> does not follow a \<open>{\<close> and one that ends with
  the name is not followed by a character that continues the match. Then the pass
  replaces the placeholder by the value of \<open>NAME\<close> in the environment when that value
  is not empty, and copies it unchanged when the value is empty (or \<open>NAME\<close> is not set);
  the text before it is copied and the text behind it is processed in the same way.
\<close>

theorem envPass_placeholder:
  assumes n: "is_NAME n"
    and ob: "ob = [] \<or> ob = ''{''" and ib: "ib = [] \<or> ib = ''{''" and cb: "cb = [] \<or> cb = ''}''"
    and pre: "CHR ''$'' \<notin> set pre"
    and before: "ob = [] \<Longrightarrow> pre = [] \<or> last pre \<noteq> CHR ''{''"
    and after: "cb = [] \<Longrightarrow> ends_match post"
  shows "\<exists>out. envPass os post = Return (out, ()) \<and>
           envPass os (pre @ (ob @ ''$'' @ ib @ n @ cb) @ post) =
             Return (pre @ (if Getenv os n \<noteq> [] then Getenv os n else ob @ ''$'' @ ib @ n @ cb) @ out, ())"
proof -
  obtain out where out: "envPass os post = Return (out, ())"
    using envPass_returns by blast
  from envPass_placeholder_step [OF n ob ib cb pre before after, of os] out
  show ?thesis
    by (simp add: prepend_output_def)
qed

theorem envPass_placeholder_witness:
  "is_NAME ''VAR'' \<and> is_NAME ''NOPE'' \<and> CHR ''$'' \<notin> set ''user='' \<and>
   Getenv example_host ''VAR'' = ''hello'' \<and> Getenv example_host ''NOPE'' = [] \<and>
   envPass example_host ''user=${VAR}'' = Return (''user=hello'', ()) \<and>
   envPass example_host ''user=${NOPE}'' = Return (''user=${NOPE}'', ())"
proof -
  have v: "is_NAME ''VAR''" and np: "is_NAME ''NOPE''"
    by (simp_all add: is_NAME_def env_name_char_def char_classes)
  have d: "CHR ''$'' \<notin> set ''user=''" by simp
  have e: "envPass example_host [] = Return ([], ())"
    by (simp add: envPass_def RASF_Nil)
  from envPass_placeholder [OF v, of "[]" "''{''" "''}''" "''user=''" "[]" example_host] d e
  have a: "envPass example_host ''user=${VAR}'' = Return (''user=hello'', ())"
    by (simp add: example_host_def)
  from envPass_placeholder [OF np, of "[]" "''{''" "''}''" "''user=''" "[]" example_host] d e
  have b: "envPass example_host ''user=${NOPE}'' = Return (''user=${NOPE}'', ())"
    by (simp add: example_host_def)
  from v np d a b show ?thesis
    by (simp add: example_host_def)
qed

lemma not_placeholder_char:
  "\<not> placeholder_char (CHR ''['')" "\<not> placeholder_char (CHR ''}'')" "\<not> placeholder_char (CHR ''{'')"
  "\<not> word (CHR '']'')"
  by (simp_all add: placeholder_char_def char_classes)

lemma placeholder_close_shape:
  "cb = ''}}'' \<or> cb = ''}'' \<and> no_second_brace post \<Longrightarrow> placeholder_close (cb @ post) = Some cb"
  by (cases post) (auto simp: placeholder_close_def no_second_brace_def)

lemma placeholder_subkey_shape:
  assumes "key \<noteq> []" and "list_all word key"
    and "cb = ''}}'' \<or> cb = ''}'' \<and> no_second_brace post"
  shows "placeholder_subkey (''['' @ key @ '']'' @ cb @ post) = Some (key, ''['' @ key @ '']'' @ cb)"
  using assms placeholder_close_shape [OF assms(3)]
  by (simp add: placeholder_subkey_def Let_def takeWhile_run dropWhile_run not_placeholder_char)

lemma placeholder_subkey_brace: "placeholder_subkey (CHR ''}'' # r) = None"
  by (simp add: placeholder_subkey_def)

lemma placeholder_run:
  assumes "list_all placeholder_char X" and "\<not> placeholder_char c"
  shows "takeWhile placeholder_char (X @ c # r) = X"
    and "dropWhile placeholder_char (X @ c # r) = c # r"
  using assms by (simp_all add: takeWhile_run dropWhile_run)

lemma placeholder_body_shape:
  assumes X: "X \<noteq> []" "list_all placeholder_char X"
    and sub: "sub = [] \<and> key = [] \<or> key \<noteq> [] \<and> list_all word key \<and> sub = ''['' @ key @ '']''"
    and cb: "cb = ''}}'' \<or> cb = ''}'' \<and> no_second_brace post"
  shows "placeholder_body (X @ sub @ cb @ post) = Some (X @ sub @ cb, [X, sub, key])"
proof -
  from cb obtain r where cbr: "cb @ post = CHR ''}'' # r" by auto
  note run1 = placeholder_run [OF X(2) not_placeholder_char(1)]
  note run2 = placeholder_run [OF X(2) not_placeholder_char(2)]
  from sub show ?thesis
  proof
    assume s: "sub = [] \<and> key = []"
    have "placeholder_body (X @ CHR ''}'' # r) = Some (X @ cb, [X, [], []])"
      using X placeholder_close_shape [OF cb]
      by (simp add: placeholder_body_def Let_def run2 placeholder_subkey_brace cbr)
    with s show ?thesis
      by (simp add: cbr)
  next
    assume s: "key \<noteq> [] \<and> list_all word key \<and> sub = ''['' @ key @ '']''"
    then have "placeholder_subkey (''['' @ key @ '']'' @ cb @ post) =
        Some (key, ''['' @ key @ '']'' @ cb)"
      using placeholder_subkey_shape [OF _ _ cb] by blast
    then have k: "placeholder_subkey (CHR ''['' # key @ CHR '']'' # cb @ post) =
        Some (key, CHR ''['' # key @ CHR '']'' # cb)"
      by simp
    show ?thesis
      using s X by (simp add: placeholder_body_def Let_def run1 k)
  qed
qed

lemma placeholderRegex_at_shape:
  assumes X: "X \<noteq> []" "list_all placeholder_char X"
    and ob: "ob = ''{'' \<or> ob = ''{{''"
    and sub: "sub = [] \<and> key = [] \<or> key \<noteq> [] \<and> list_all word key \<and> sub = ''['' @ key @ '']''"
    and cb: "cb = ''}}'' \<or> cb = ''}'' \<and> no_second_brace post"
  shows "placeholderRegex_at (ob @ X @ sub @ cb @ post) = Some (ob @ X @ sub @ cb, [X, sub, key])"
proof -
  note b = placeholder_body_shape [OF X sub cb]
  from X obtain c r where Xc: "X = c # r" and pc: "placeholder_char c"
    by (cases X) auto
  from pc not_placeholder_char(3) have c: "c \<noteq> CHR ''{''"
    by auto
  from ob show ?thesis
  proof
    assume "ob = ''{''"
    with b c show ?thesis
      by (simp add: placeholderRegex_at_def Xc)
  next
    assume "ob = ''{{''"
    with b show ?thesis
      by (simp add: placeholderRegex_at_def)
  qed
qed

lemma placeholderRegex_at_before:
  assumes "CHR ''{'' \<notin> set pre" and "k < length pre"
  shows "placeholderRegex_at (drop k pre @ s) = None"
proof -
  from assms(2) obtain c r where d: "drop k pre = c # r"
    by (cases "drop k pre") auto
  have "set (drop k pre) \<subseteq> set pre" by (rule set_drop_subset)
  with assms(1) d have "c \<noteq> CHR ''{''" by auto
  then show ?thesis
    unfolding d by (simp add: placeholderRegex_at_def)
qed

lemma placeholderCallback_resolved:
  assumes f: "FindStringSubmatch placeholderRegex_at ph = [m0, X, g2, k]"
    and g: "GetSecret sdk X (aws_client st) (history st) = Return ((v, None), client1, h1)"
  shows "placeholderCallback sdk os ph st =
     (if v \<noteq> [] then
        if k = [] then Return (v, st\<lparr>aws_client := client1, history := h1\<rparr>)
        else
          (case Unmarshal os v of
             Inr secretMap \<Rightarrow>
               (case secretMap k of
                  Some val \<Rightarrow> Return (val, st\<lparr>aws_client := client1, history := h1\<rparr>)
                | None \<Rightarrow>
                    Return (m0, st\<lparr>aws_client := client1, history := h1, failed := failed st + 1,
                                   logged := logged st @ [LogKeyNotFound k]\<rparr>))
           | Inl e1 \<Rightarrow>
               Return (m0, st\<lparr>aws_client := client1, history := h1, failed := failed st + 1,
                              logged := logged st @ [LogJSONError e1]\<rparr>))
      else Return (m0, st\<lparr>aws_client := client1, history := h1\<rparr>))"
  using f g by (simp add: placeholderCallback_def Let_def split: sum.splits option.splits)

lemma secretPass_step:
  assumes X: "X \<noteq> []" "list_all placeholder_char X"
    and ob: "ob = ''{'' \<or> ob = ''{{''"
    and sub: "sub = [] \<and> key = [] \<or> key \<noteq> [] \<and> list_all word key \<and> sub = ''['' @ key @ '']''"
    and cb: "cb = ''}}'' \<or> cb = ''}'' \<and> no_second_brace post"
    and pre: "CHR ''{'' \<notin> set pre"
  shows "secretPass sdk os (pre @ (ob @ X @ sub @ cb) @ post) st =
     prepend_output pre
       (case placeholderCallback sdk os (ob @ X @ sub @ cb) st of
          Panic p \<Rightarrow> Panic p
        | Return (r, st1) \<Rightarrow> prepend_output r (secretPass sdk os post st1)) \<and>
     FindStringSubmatch placeholderRegex_at (ob @ X @ sub @ cb) = [ob @ X @ sub @ cb, X, sub, key]"
proof -
  let ?p = "ob @ X @ sub @ cb"
  have m: "placeholderRegex_at (?p @ post) = Some (?p, [X, sub, key])"
    using placeholderRegex_at_shape [OF X ob sub cb] by simp
  from ob have ne: "?p \<noteq> []" by auto
  from cb have cb0: "cb = ''}}'' \<or> cb = ''}'' \<and> no_second_brace []"
    by (auto simp: no_second_brace_def)
  have "placeholderRegex_at ?p = Some (?p, [X, sub, key])"
    using placeholderRegex_at_shape [OF X ob sub cb0] by simp
  then have f: "FindStringSubmatch placeholderRegex_at ?p = [?p, X, sub, key]"
    by (rule FindStringSubmatch_at)
  have skip: "\<And>k. k < length pre \<Longrightarrow> placeholderRegex_at (drop k pre @ ?p @ post) = None"
    using placeholderRegex_at_before [OF pre] by blast
  have "secretPass sdk os (pre @ ?p @ post) st =
      prepend_output pre
        (ReplaceAllStringFunc placeholderRegex_at (placeholderCallback sdk os) (?p @ post) st)"
    unfolding secretPass_def using skip by (rule RASF_skip)
  also have "ReplaceAllStringFunc placeholderRegex_at (placeholderCallback sdk os) (?p @ post) st =
      (case placeholderCallback sdk os ?p st of
         Panic x \<Rightarrow> Panic x
       | Return (r, st1) \<Rightarrow> prepend_output r (secretPass sdk os post st1))"
    unfolding secretPass_def by (rule RASF_match [where at = placeholderRegex_at, OF m ne])
  finally show ?thesis
    using f by simp
qed

lemma secretPass_Nil: "secretPass sdk os [] st = Return ([], st)"
  by (simp add: secretPass_def RASF_Nil)

lemma example_secret_not_empty: "example_secret \<noteq> []"
  by (simp add: example_secret_def)

text \<open>
  Claim C9, as the code has it. Let \<open>{X[key]}\<close> be a placeholder with a sub-key, in a
  line with no \<open>{\<close> before it and no \<open>}\<close> right behind it, and let \<open>GetSecret X\<close> return the
  value \<open>v\<close> with no error, \<open>v\<close> not empty. When \<open>v\<close> parses as an object of strings that
  has \<open>key\<close>, the placeholder is replaced by the value of \<open>key\<close> and the counter stays; when
  the object has no \<open>key\<close>, and when \<open>v\<close> does not parse, the placeholder is copied
  unchanged, the counter grows by exactly one and one line is logged. The text before
  the placeholder is copied and the text behind it is processed in the same way. With
  the value \<open>example_secret\<close>, \<open>{X[pass]}\<close> becomes \<open>s3cr3t\<close> and \<open>{X[missing]}\<close> stays.
\<close>

theorem secretPass_subkey:
  assumes X: "X \<noteq> []" "list_all placeholder_char X"
    and key: "key \<noteq> []" "list_all word key"
    and pre: "CHR ''{'' \<notin> set pre" and post: "no_second_brace post"
    and resolved: "GetSecret sdk X (aws_client st) (history st) = Return ((v, None), client1, h1)"
    and nonempty: "v \<noteq> []"
  shows "secretPass sdk os (pre @ (''{'' @ X @ ''['' @ key @ '']}'') @ post) st =
     (case Unmarshal os v of
        Inr secretMap \<Rightarrow>
          (case secretMap key of
             Some val \<Rightarrow>
               prepend_output (pre @ val)
                 (secretPass sdk os post (st\<lparr>aws_client := client1, history := h1\<rparr>))
           | None \<Rightarrow>
               prepend_output (pre @ ''{'' @ X @ ''['' @ key @ '']}'')
                 (secretPass sdk os post
                    (st\<lparr>aws_client := client1, history := h1, failed := failed st + 1,
                        logged := logged st @ [LogKeyNotFound key]\<rparr>)))
      | Inl e \<Rightarrow>
          prepend_output (pre @ ''{'' @ X @ ''['' @ key @ '']}'')
            (secretPass sdk os post
               (st\<lparr>aws_client := client1, history := h1, failed := failed st + 1,
                   logged := logged st @ [LogJSONError e]\<rparr>)))"
proof -
  have sub: "''['' @ key @ '']'' = [] \<and> key = [] \<or>
      key \<noteq> [] \<and> list_all word key \<and> ''['' @ key @ '']'' = ''['' @ key @ '']''"
    using key by simp
  have cb: "''}'' = ''}}'' \<or> ''}'' = ''}'' \<and> no_second_brace post"
    using post by simp
  have ob: "''{'' = ''{'' \<or> ''{'' = ''{{''" by simp
  note step = secretPass_step [OF X ob sub cb pre, of sdk os st]
  from step have f: "FindStringSubmatch placeholderRegex_at (''{'' @ X @ (''['' @ key @ '']'') @ ''}'') =
      [''{'' @ X @ (''['' @ key @ '']'') @ ''}'', X, ''['' @ key @ '']'', key]"
    by blast
  note cbk = placeholderCallback_resolved [OF f resolved, of os]
  from step have "secretPass sdk os (pre @ (''{'' @ X @ (''['' @ key @ '']'') @ ''}'') @ post) st =
     prepend_output pre
       (case placeholderCallback sdk os (''{'' @ X @ (''['' @ key @ '']'') @ ''}'') st of
          Panic p \<Rightarrow> Panic p
        | Return (r, st1) \<Rightarrow> prepend_output r (secretPass sdk os post st1))"
    by blast
  then show ?thesis
    unfolding cbk using nonempty key
    by (simp add: prepend_output_append split: sum.splits option.splits)
qed

theorem secretPass_subkey_witness:
  "\<exists>client1 h1.
     GetSecret (text_provider (Some example_secret)) ''X''
         (aws_client (new_run ''default'' [])) (history (new_run ''default'' [])) =
       Return ((example_secret, None), client1, h1) \<and>
     Unmarshal example_host example_secret =
       Inr (map_of [(''user'', ''alice''), (''pass'', ''s3cr3t'')]) \<and>
     secretPass (text_provider (Some example_secret)) example_host ''password={X[pass]}''
         (new_run ''default'' []) =
       Return (''password=s3cr3t'', (new_run ''default'' [])\<lparr>aws_client := client1, history := h1\<rparr>) \<and>
     secretPass (text_provider (Some example_secret)) example_host ''password={X[missing]}''
         (new_run ''default'' []) =
       Return (''password={X[missing]}'',
               (new_run ''default'' [])\<lparr>aws_client := client1, history := h1, failed := 1,
                 logged := [LogKeyNotFound ''missing'']\<rparr>)"
proof -
  obtain client1 h1 where
    a: "GetSecret (text_provider (Some example_secret)) ''X''
          (aws_client (new_run ''default'' [])) (history (new_run ''default'' [])) =
        Return ((example_secret, None), client1, h1)"
    by (simp add: resolver_defs valid_X region_X new_run_def)
  have u: "Unmarshal example_host example_secret =
      Inr (map_of [(''user'', ''alice''), (''pass'', ''s3cr3t'')])"
    by (simp add: example_host_def)
  have X: "''X'' \<noteq> []" "list_all placeholder_char ''X''"
    by (simp_all add: placeholder_char_def char_classes)
  have k1: "''pass'' \<noteq> []" "list_all word ''pass''"
    by (simp_all add: char_classes)
  have k2: "''missing'' \<noteq> []" "list_all word ''missing''"
    by (simp_all add: char_classes)
  have pre: "CHR ''{'' \<notin> set ''password=''" by simp
  have post: "no_second_brace []" by (simp add: no_second_brace_def)
  have st: "failed (new_run ''default'' []) = 0" "logged (new_run ''default'' []) = []"
    by (simp_all add: new_run_def)
  from secretPass_subkey [OF X k1 pre post a example_secret_not_empty, of example_host]
  have b: "secretPass (text_provider (Some example_secret)) example_host ''password={X[pass]}''
      (new_run ''default'' []) =
      Return (''password=s3cr3t'', (new_run ''default'' [])\<lparr>aws_client := client1, history := h1\<rparr>)"
    by (simp add: u secretPass_Nil prepend_output_def)
  from secretPass_subkey [OF X k2 pre post a example_secret_not_empty, of example_host]
  have c: "secretPass (text_provider (Some example_secret)) example_host ''password={X[missing]}''
      (new_run ''default'' []) =
      Return (''password={X[missing]}'',
              (new_run ''default'' [])\<lparr>aws_client := client1, history := h1, failed := 1,
                logged := [LogKeyNotFound ''missing'']\<rparr>)"
    by (simp add: u st secretPass_Nil prepend_output_def)
  from a u b c show ?thesis by blast
qed

text \<open>
  Claim C9 as stated fails for a value that does not parse because it is empty: the
  secret \<open>X\<close> resolves to the empty text, which is not JSON, and \<open>{X[pass]}\<close> is copied
  unchanged while the counter stays at 0 and nothing is logged; the whole call returns
  no error.
\<close>

theorem secretPass_subkey_empty_counterexample:
  "(case Unmarshal example_host [] of
      Inl e \<Rightarrow> e = External ''unexpected end of JSON input''
    | Inr secretMap \<Rightarrow> False) \<and>
   (case GetSecret (text_provider (Some [])) ''X''
           (aws_client (new_run ''default'' [])) (history (new_run ''default'' [])) of
      Panic p \<Rightarrow> False
    | Return ((v, e), c, h) \<Rightarrow> v = [] \<and> e = None) \<and>
   (case secretPass (text_provider (Some [])) example_host ''{X[pass]}'' (new_run ''default'' []) of
      Panic p \<Rightarrow> False
    | Return (out, st1) \<Rightarrow> out = ''{X[pass]}'' \<and> failed st1 = 0 \<and> logged st1 = []) \<and>
   processTemplateFile (text_provider (Some [])) example_host (example_files [''{X[pass]}''])
       ''in'' ''out'' ''default'' [] =
     Return \<lparr>returned = None, outfile = Some (''{X[pass]}'' @ [CHR 0x0A]), log_lines = [],
       provider_calls =
         [NewSessionCall \<lparr>Profile = ''default'', Region = None, SharedConfigEnable = True\<rparr>,
          CredentialsGetCall (Session 0), NewServiceCall (Session 0),
          GetSecretValueCall (SecretsManager (Session 0)) ''X'']\<rparr>"
  by code_simp

text \<open>
  Claim C10. Let a placeholder for the identifier \<open>X\<close>, with one or two braces on either
  side and with or without a sub-key, stand in a line with no \<open>{\<close> before it (a
  placeholder that ends with one brace is not followed by another). When \<open>GetSecret X\<close>
  returns the empty string with no error, the placeholder is copied unchanged, and the
  state handed on differs from the one before in what \<open>GetSecret\<close> did to the client and
  the history only: the counter and the log are as they were.
\<close>

theorem secretPass_empty_secret:
  assumes X: "X \<noteq> []" "list_all placeholder_char X"
    and ob: "ob = ''{'' \<or> ob = ''{{''"
    and sub: "sub = [] \<and> key = [] \<or> key \<noteq> [] \<and> list_all word key \<and> sub = ''['' @ key @ '']''"
    and cb: "cb = ''}}'' \<or> cb = ''}'' \<and> no_second_brace post"
    and pre: "CHR ''{'' \<notin> set pre"
    and resolved: "GetSecret sdk X (aws_client st) (history st) = Return (([], None), client1, h1)"
  shows "secretPass sdk os (pre @ (ob @ X @ sub @ cb) @ post) st =
           prepend_output (pre @ ob @ X @ sub @ cb)
             (secretPass sdk os post (st\<lparr>aws_client := client1, history := h1\<rparr>))"
proof -
  note step = secretPass_step [OF X ob sub cb pre, of sdk os st]
  from step have f: "FindStringSubmatch placeholderRegex_at (ob @ X @ sub @ cb) =
      [ob @ X @ sub @ cb, X, sub, key]"
    by blast
  note cbk = placeholderCallback_resolved [OF f resolved, of os]
  from step have "secretPass sdk os (pre @ (ob @ X @ sub @ cb) @ post) st =
     prepend_output pre
       (case placeholderCallback sdk os (ob @ X @ sub @ cb) st of
          Panic p \<Rightarrow> Panic p
        | Return (r, st1) \<Rightarrow> prepend_output r (secretPass sdk os post st1))"
    by blast
  then show ?thesis
    unfolding cbk by (simp add: prepend_output_append)
qed

theorem secretPass_empty_secret_witness:
  "\<exists>client1 h1.
     GetSecret (text_provider (Some [])) ''X''
         (aws_client (new_run ''default'' [])) (history (new_run ''default'' [])) =
       Return (([], None), client1, h1) \<and>
     secretPass (text_provider (Some [])) example_host ''password={X}'' (new_run ''default'' []) =
       Return (''password={X}'', (new_run ''default'' [])\<lparr>aws_client := client1, history := h1\<rparr>) \<and>
     failed ((new_run ''default'' [])\<lparr>aws_client := client1, history := h1\<rparr>) = 0 \<and>
     logged ((new_run ''default'' [])\<lparr>aws_client := client1, history := h1\<rparr>) = []"
proof -
  obtain client1 h1 where
    a: "GetSecret (text_provider (Some [])) ''X''
          (aws_client (new_run ''default'' [])) (history (new_run ''default'' [])) =
        Return (([], None), client1, h1)"
    by (simp add: resolver_defs valid_X region_X new_run_def)
  have X: "''X'' \<noteq> []" "list_all placeholder_char ''X''"
    by (simp_all add: placeholder_char_def char_classes)
  have ob: "''{'' = ''{'' \<or> ''{'' = ''{{''" by simp
  have sub: "[] = [] \<and> [] = [] \<or> [] \<noteq> [] \<and> list_all word [] \<and> [] = ''['' @ [] @ '']''"
    by simp
  have cb: "''}'' = ''}}'' \<or> ''}'' = ''}'' \<and> no_second_brace []"
    by (simp add: no_second_brace_def)
  have pre: "CHR ''{'' \<notin> set ''password=''" by simp
  from secretPass_empty_secret [OF X ob sub cb pre a, of example_host]
  have b: "secretPass (text_provider (Some [])) example_host ''password={X}'' (new_run ''default'' []) =
      Return (''password={X}'', (new_run ''default'' [])\<lparr>aws_client := client1, history := h1\<rparr>)"
    by (simp add: secretPass_Nil prepend_output_def)
  have c: "failed ((new_run ''default'' [])\<lparr>aws_client := client1, history := h1\<rparr>) = 0"
    "logged ((new_run ''default'' [])\<lparr>aws_client := client1, history := h1\<rparr>) = []"
    by (simp_all add: new_run_def)
  from a b c show ?thesis by blast
qed

text \<open>
  Claim C2 fails on the code. With three placeholders that cannot be resolved (the
  identifier is rejected, so there is no provider call) and no I/O error, the call
  returns the failure that names the count 3, but it returns before \<open>writer.Flush()\<close>:
  the three lines are still in the buffer of the writer and the output file is empty.
\<close>

theorem processTemplateFile_returns_before_flush:
  "processTemplateFile (text_provider None) example_host
     (example_files [''user={db-passwd}'', ''# comment'', ''a={db-passwd} b={db-passwd}''])
     ''in'' ''out'' ''default'' [] =
   Return \<lparr>returned = Some (ItemsNotReplaced 3), outfile = Some [],
     log_lines = [LogError (InvalidIdentifier ''db-passwd''),
       LogError (InvalidIdentifier ''db-passwd''), LogError (InvalidIdentifier ''db-passwd'')],
     provider_calls = []\<rparr>"
  by code_simp

end
